theory Spec2Isabelle
  imports Main
begin

section \<open>CopyMedia: matching and relocation of downloaded media\<close>

text \<open>
  A shallow embedding of \<^verbatim>\<open>src/copy_files.py\<close> (class \<^verbatim>\<open>CopyMedia\<close> and
  \<^verbatim>\<open>main\<close>) and of \<^verbatim>\<open>send_notification\<close> from \<^verbatim>\<open>src/copy-files.py\<close>.

  Python exceptions are values of \<open>pyerr\<close>. A function that can raise after it has
  changed the file system returns the pair of its outcome and the file system reached, so
  that the effects made before the exception stay visible.
\<close>

subsection \<open>Exceptions\<close>

datatype pyerr =
    KeyError string
  | TypeError
  | ConfigurationError string
  | FileNotFoundError
  | FileExistsError
  | NotADirectoryError
  | ShutilError
  | ReError
  | Unmodelled
  | LookupFailure

text \<open>
  \<open>ShutilError\<close> is \<^verbatim>\<open>shutil.Error\<close> and \<open>ReError\<close> is \<^verbatim>\<open>re.error\<close>;
  \<open>LookupFailure\<close> stands for an exception that leaves the movie lookup. \<open>Unmodelled\<close>
  is no exception of Python: it marks a pattern or template that lies outside the fragment
  of regular expressions modelled below.
\<close>

fun is_ConfigurationError :: "pyerr \<Rightarrow> bool" where
  "is_ConfigurationError (ConfigurationError m) = True"
| "is_ConfigurationError e = False"

subsection \<open>Path strings: \<^verbatim>\<open>os.path.join\<close> and \<^verbatim>\<open>os.path.split\<close>\<close>

definition sep :: char where
  "sep = CHR ''/''"

text \<open>\<^verbatim>\<open>posixpath.join(a, b)\<close> for two strings.\<close>

definition join :: "string \<Rightarrow> string \<Rightarrow> string" where
  "join a b =
     (if b \<noteq> [] \<and> hd b = sep then b
      else if a = [] \<or> last a = sep then a @ b
      else a @ [sep] @ b)"

text \<open>
  \<^verbatim>\<open>posixpath.split(p)\<close>: the tail is what follows the last slash; the head is what
  precedes it, with trailing slashes stripped unless it consists of slashes only.
\<close>

definition rstrip_sep :: "string \<Rightarrow> string" where
  "rstrip_sep s = rev (dropWhile (\<lambda>c. c = sep) (rev s))"

definition split :: "string \<Rightarrow> string \<times> string" where
  "split p =
     (let tail = rev (takeWhile (\<lambda>c. c \<noteq> sep) (rev p));
          head = rev (dropWhile (\<lambda>c. c \<noteq> sep) (rev p))
      in (if head \<noteq> [] \<and> \<not> list_all (\<lambda>c. c = sep) head then rstrip_sep head else head,
          tail))"

subsection \<open>The file system\<close>

text \<open>
  A path string denotes the list of its components: the pieces between slashes, with empty
  pieces and \<^verbatim>\<open>.\<close> dropped. The working directory of the model is the root, so a
  relative and an absolute spelling of the same components denote the same node; paths
  are taken to be free of \<^verbatim>\<open>..\<close> and of symbolic links.

  The file system is an association list from component lists to nodes, in the order in
  which a directory listing reports the entries. The root is always a directory.
\<close>

fun components :: "string \<Rightarrow> string \<Rightarrow> string list" where
  "components cur [] = [rev cur]"
| "components cur (c # cs) =
     (if c = sep then rev cur # components [] cs else components (c # cur) cs)"

definition parts :: "string \<Rightarrow> string list" where
  "parts p = filter (\<lambda>s. s \<noteq> [] \<and> s \<noteq> ''.'') (components [] p)"

datatype node = File string | Dir

type_synonym filesystem = "(string list \<times> node) list"

definition lookup :: "filesystem \<Rightarrow> string list \<Rightarrow> node option" where
  "lookup fs k = (if k = [] then Some Dir else map_of fs k)"

text \<open>
  \<^verbatim>\<open>os.path.exists\<close>, \<^verbatim>\<open>isdir\<close>, \<^verbatim>\<open>isfile\<close>: all three are false on the empty
  string.
\<close>

definition path_exists :: "filesystem \<Rightarrow> string \<Rightarrow> bool" where
  "path_exists fs p = (p \<noteq> [] \<and> lookup fs (parts p) \<noteq> None)"

definition isdir :: "filesystem \<Rightarrow> string \<Rightarrow> bool" where
  "isdir fs p = (p \<noteq> [] \<and> lookup fs (parts p) = Some Dir)"

definition isfile :: "filesystem \<Rightarrow> string \<Rightarrow> bool" where
  "isfile fs p = (p \<noteq> [] \<and> (case lookup fs (parts p) of Some (File c) \<Rightarrow> True | _ \<Rightarrow> False))"

text \<open>\<^verbatim>\<open>os.mkdir\<close> on a component list.\<close>

definition mkdir :: "filesystem \<Rightarrow> string list \<Rightarrow> pyerr + filesystem" where
  "mkdir fs k =
     (if lookup fs k \<noteq> None then Inl FileExistsError
      else case lookup fs (butlast k) of
             None \<Rightarrow> Inl FileNotFoundError
           | Some (File c) \<Rightarrow> Inl NotADirectoryError
           | Some Dir \<Rightarrow> Inr (fs @ [(k, Dir)]))"

text \<open>
  \<^verbatim>\<open>os.makedirs(name)\<close> with \<^verbatim>\<open>exist_ok=False\<close>: the missing parent is made
  first (a \<^verbatim>\<open>FileExistsError\<close> from that recursive call is passed over), then the leaf.
\<close>

function makedirs_parts :: "filesystem \<Rightarrow> string list \<Rightarrow> pyerr + filesystem" where
  "makedirs_parts fs k =
     (if k \<noteq> [] \<and> butlast k \<noteq> [] \<and> lookup fs (butlast k) = None
      then (case makedirs_parts fs (butlast k) of
              Inl FileExistsError \<Rightarrow> mkdir fs k
            | Inl e \<Rightarrow> Inl e
            | Inr fs1 \<Rightarrow> mkdir fs1 k)
      else mkdir fs k)"
  by pat_completeness auto
termination
  by (relation "measure (\<lambda>(fs, k). length k)") auto

declare makedirs_parts.simps [simp del]

definition makedirs :: "filesystem \<Rightarrow> string \<Rightarrow> pyerr + filesystem" where
  "makedirs fs p = (if p = [] then Inl FileNotFoundError else makedirs_parts fs (parts p))"

text \<open>\<^verbatim>\<open>os.listdir\<close>: the names of the entries directly inside a directory.\<close>

definition listdir :: "filesystem \<Rightarrow> string \<Rightarrow> pyerr + string list" where
  "listdir fs p =
     (if p = [] then Inl FileNotFoundError
      else case lookup fs (parts p) of
             None \<Rightarrow> Inl FileNotFoundError
           | Some (File c) \<Rightarrow> Inl NotADirectoryError
           | Some Dir \<Rightarrow>
               Inr (remdups (map (\<lambda>(k, n). last k)
                      (filter (\<lambda>(k, n). k \<noteq> [] \<and> butlast k = parts p) fs))))"

text \<open>
  \<^verbatim>\<open>os.rename\<close> once it is known to succeed: whatever sat at the destination is
  replaced, and the source with everything below it is re-rooted at the destination
  (entries of the source are kept even where the destination lies above them).
\<close>

definition under :: "string list \<Rightarrow> string list \<Rightarrow> bool" where
  "under d k = (take (length d) k = d)"

definition rename_tree :: "filesystem \<Rightarrow> string list \<Rightarrow> string list \<Rightarrow> filesystem" where
  "rename_tree fs ks kd =
     map (\<lambda>(k, n). (if under ks k then kd @ drop (length ks) k else k, n))
       (filter (\<lambda>(k, n). under ks k \<or> \<not> under kd k) fs)"

text \<open>
  \<^verbatim>\<open>shutil.move(src, dst)\<close>. A destination that is a directory receives the source
  under the source's own name, unless that name is taken. Otherwise the source is renamed;
  where \<^verbatim>\<open>os.rename\<close> fails, the error is the one of the copy that \<^verbatim>\<open>shutil.move\<close>
  then tries (for a directory source, \<^verbatim>\<open>copytree\<close> makes the missing parents).
\<close>

definition move_to :: "filesystem \<Rightarrow> string \<Rightarrow> string list \<Rightarrow> bool \<Rightarrow> string list \<Rightarrow> pyerr + filesystem" where
  "move_to fs src ks dst_empty kd =
     (case (if src = [] then None else lookup fs ks) of
        None \<Rightarrow> Inl FileNotFoundError
      | Some (File c) \<Rightarrow>
          (if dst_empty then Inl FileNotFoundError
           else if ks = kd then Inr fs
           else case lookup fs (butlast kd) of
                  None \<Rightarrow> Inl FileNotFoundError
                | Some (File c') \<Rightarrow> Inl NotADirectoryError
                | Some Dir \<Rightarrow> Inr (rename_tree fs ks kd))
      | Some Dir \<Rightarrow>
          (if under ks kd then Inl ShutilError
           else if dst_empty then Inl FileNotFoundError
           else if lookup fs kd \<noteq> None then Inl FileExistsError
           else case lookup fs (butlast kd) of
                  Some Dir \<Rightarrow> Inr (rename_tree fs ks kd)
                | Some (File c') \<Rightarrow> Inl NotADirectoryError
                | None \<Rightarrow>
                    (case makedirs_parts fs (butlast kd) of
                       Inl e \<Rightarrow> Inl e
                     | Inr fs1 \<Rightarrow> Inr (rename_tree fs1 ks kd))))"

definition shutil_move :: "filesystem \<Rightarrow> string \<Rightarrow> string \<Rightarrow> pyerr + filesystem" where
  "shutil_move fs src dst =
     (let ks = parts src; kd = parts dst in
      if isdir fs dst then
        (if path_exists fs src \<and> ks = kd then Inr fs
         else let real = kd @ (if ks = [] then [] else [last ks]) in
              if lookup fs real \<noteq> None then Inl ShutilError
              else move_to fs src ks False real)
      else move_to fs src ks (dst = []) kd)"

subsection \<open>A fragment of Python's regular expressions\<close>

text \<open>
  The program calls \<^verbatim>\<open>re.match\<close> and \<^verbatim>\<open>re.sub\<close>. The general theorems below take
  both as parameters. For concrete patterns this section gives a backtracking matcher for
  the fragment with literals, \<^verbatim>\<open>.\<close>, \<^verbatim>\<open>^\<close>, \<^verbatim>\<open>$\<close>, escaped punctuation, groups,
  \<^verbatim>\<open>|\<close> and the greedy \<^verbatim>\<open>*\<close>, \<^verbatim>\<open>+\<close>, \<^verbatim>\<open>?\<close>. A pattern or a replacement template
  outside the fragment yields \<open>Unmodelled\<close>; one that Python rejects yields \<open>ReError\<close>.
  A string is read as one character per code point.
\<close>

datatype regex =
    Lit char | AnyChar | Bol | Eol | Eps
  | Seq regex regex | Alt regex regex | Star regex | Group nat regex

record mstate =
  pos :: nat
  rest :: string
  caps :: "(nat \<times> string) list"

definition newline :: char where
  "newline = CHR 0x0A"

definition backslash :: char where
  "backslash = CHR 0x5C"

text \<open>
  \<open>run r n st\<close> lists the states in which \<open>r\<close> can finish from \<open>st\<close>, in the order in
  which a backtracking matcher tries them. The number \<open>n\<close> bounds the iterations of a star;
  every iteration has to consume a character, so the length of the remaining input is
  enough.
\<close>

fun run :: "regex \<Rightarrow> nat \<Rightarrow> mstate \<Rightarrow> mstate list" where
  "run (Lit c) n st =
     (case rest st of
        [] \<Rightarrow> []
      | x # xs \<Rightarrow> if x = c then [st\<lparr>pos := Suc (pos st), rest := xs\<rparr>] else [])"
| "run AnyChar n st =
     (case rest st of
        [] \<Rightarrow> []
      | x # xs \<Rightarrow> if x \<noteq> newline then [st\<lparr>pos := Suc (pos st), rest := xs\<rparr>] else [])"
| "run Bol n st = (if pos st = 0 then [st] else [])"
| "run Eol n st = (if rest st = [] \<or> rest st = [newline] then [st] else [])"
| "run Eps n st = [st]"
| "run (Seq a b) n st =
     concat (map (\<lambda>st'. run b (length (rest st')) st') (run a (length (rest st)) st))"
| "run (Alt a b) n st = run a (length (rest st)) st @ run b (length (rest st)) st"
| "run (Group i r) n st =
     map (\<lambda>st'. st'\<lparr>caps := (i, take (pos st' - pos st) (rest st)) # caps st'\<rparr>)
       (run r (length (rest st)) st)"
| "run (Star r) n st =
     (case n of
        0 \<Rightarrow> [st]
      | Suc m \<Rightarrow>
          concat (map (\<lambda>st'. if length (rest st') < length (rest st)
                              then run (Star r) m st' else [])
                    (run r (length (rest st)) st)) @ [st])"

fun nullable :: "regex \<Rightarrow> bool" where
  "nullable (Lit c) = False"
| "nullable AnyChar = False"
| "nullable Bol = True"
| "nullable Eol = True"
| "nullable Eps = True"
| "nullable (Seq a b) = (nullable a \<and> nullable b)"
| "nullable (Alt a b) = (nullable a \<or> nullable b)"
| "nullable (Star r) = True"
| "nullable (Group i r) = nullable r"

text \<open>
  The parser keeps a stack of open groups. A frame holds the group's number (0 for the
  whole pattern), the alternatives already closed by \<^verbatim>\<open>|\<close> and the items of the current
  alternative, latest first.
\<close>

type_synonym frame = "nat \<times> regex list \<times> regex list"

fun seq_of :: "regex list \<Rightarrow> regex" where
  "seq_of [] = Eps"
| "seq_of [x] = x"
| "seq_of (x # xs) = Seq x (seq_of xs)"

fun alt_of :: "regex list \<Rightarrow> regex" where
  "alt_of [] = Eps"
| "alt_of [x] = x"
| "alt_of (x # xs) = Alt x (alt_of xs)"

definition close_frame :: "frame \<Rightarrow> regex" where
  "close_frame f = (case f of (i, alts, cur) \<Rightarrow> alt_of (alts @ [seq_of (rev cur)]))"

definition is_alnum :: "char \<Rightarrow> bool" where
  "is_alnum c = (c \<in> set ''abcdefghijklmnopqrstuvwxyzABCDEFGHIJKLMNOPQRSTUVWXYZ0123456789'')"

definition push_item :: "regex \<Rightarrow> frame list \<Rightarrow> frame list" where
  "push_item x st = (case st of [] \<Rightarrow> [] | (i, alts, cur) # fs \<Rightarrow> (i, alts, x # cur) # fs)"

definition quantify :: "char \<Rightarrow> regex \<Rightarrow> regex" where
  "quantify q x =
     (if q = CHR ''*'' then Star x
      else if q = CHR ''+'' then Seq x (Star x)
      else Alt x Eps)"

fun parse_re :: "frame list \<Rightarrow> nat \<Rightarrow> string \<Rightarrow> pyerr + (regex \<times> nat)" where
  "parse_re st g [] =
     (case st of [f] \<Rightarrow> Inr (close_frame f, g) | _ \<Rightarrow> Inl ReError)"
| "parse_re st g (c # cs) =
     (if c = backslash then
        (case cs of
           [] \<Rightarrow> Inl ReError
         | d # ds \<Rightarrow> if is_alnum d then Inl Unmodelled else parse_re (push_item (Lit d) st) g ds)
      else if c = CHR ''('' then
        (if cs \<noteq> [] \<and> hd cs = CHR ''?'' then Inl Unmodelled
         else parse_re ((Suc g, [], []) # st) (Suc g) cs)
      else if c = CHR '')'' then
        (case st of
           f # (i, alts, cur) # fs \<Rightarrow>
             parse_re ((i, alts, Group (fst f) (close_frame f) # cur) # fs) g cs
         | _ \<Rightarrow> Inl ReError)
      else if c = CHR ''|'' then
        (case st of
           (i, alts, cur) # fs \<Rightarrow> parse_re ((i, alts @ [seq_of (rev cur)], []) # fs) g cs
         | [] \<Rightarrow> Inl ReError)
      else if c = CHR ''*'' \<or> c = CHR ''+'' \<or> c = CHR ''?'' then
        (case st of
           (i, alts, x # cur) # fs \<Rightarrow>
             (if x = Bol \<or> x = Eol \<or> (c \<noteq> CHR ''?'' \<and> nullable x)
                 \<or> (cs \<noteq> [] \<and> hd cs \<in> set ''*+?{'')
              then Inl Unmodelled
              else parse_re ((i, alts, quantify c x # cur) # fs) g cs)
         | _ \<Rightarrow> Inl ReError)
      else if c = CHR ''['' \<or> c = CHR ''{'' then Inl Unmodelled
      else parse_re
             (push_item (if c = CHR ''.'' then AnyChar
                         else if c = CHR ''^'' then Bol
                         else if c = CHR ''$'' then Eol
                         else Lit c) st) g cs)"

definition compile :: "string \<Rightarrow> pyerr + (regex \<times> nat)" where
  "compile p = parse_re [(0, [], [])] 0 p"

text \<open>\<^verbatim>\<open>re.match(pattern, string)\<close>: a match object is truthy, \<^verbatim>\<open>None\<close> is not.\<close>

definition py_re_match :: "string \<Rightarrow> string \<Rightarrow> pyerr + bool" where
  "py_re_match p s =
     (case compile p of
        Inl e \<Rightarrow> Inl e
      | Inr (r, g) \<Rightarrow> Inr (run r (length s) \<lparr>pos = 0, rest = s, caps = []\<rparr> \<noteq> []))"

text \<open>
  Replacement templates: \<^verbatim>\<open>\1\<close> to \<^verbatim>\<open>\9\<close> refer to a group, \<^verbatim>\<open>\\\<close> is a backslash,
  every other character stands for itself. In particular \<^verbatim>\<open>$\<close> is an ordinary
  character of a Python template.
\<close>

datatype titem = TLit char | TGroup nat

definition digit_of :: "char \<Rightarrow> nat option" where
  "digit_of c =
     map_of [(CHR ''0'', 0), (CHR ''1'', 1), (CHR ''2'', 2), (CHR ''3'', 3), (CHR ''4'', 4),
             (CHR ''5'', 5), (CHR ''6'', 6), (CHR ''7'', 7), (CHR ''8'', 8), (CHR ''9'', 9)] c"

fun parse_template :: "nat \<Rightarrow> string \<Rightarrow> pyerr + titem list" where
  "parse_template g [] = Inr []"
| "parse_template g (c # cs) =
     (if c = backslash then
        (case cs of
           [] \<Rightarrow> Inl ReError
         | d # ds \<Rightarrow>
             (if d = backslash then
                (case parse_template g ds of Inl e \<Rightarrow> Inl e | Inr t \<Rightarrow> Inr (TLit backslash # t))
              else case digit_of d of
                     None \<Rightarrow> Inl Unmodelled
                   | Some k \<Rightarrow>
                       (if k = 0 \<or> (ds \<noteq> [] \<and> digit_of (hd ds) \<noteq> None) then Inl Unmodelled
                        else if g < k then Inl ReError
                        else case parse_template g ds of
                               Inl e \<Rightarrow> Inl e
                             | Inr t \<Rightarrow> Inr (TGroup k # t))))
      else (case parse_template g cs of Inl e \<Rightarrow> Inl e | Inr t \<Rightarrow> Inr (TLit c # t)))"

definition expand :: "titem list \<Rightarrow> (nat \<times> string) list \<Rightarrow> string" where
  "expand t cs =
     concat (map (\<lambda>it. case it of
                          TLit c \<Rightarrow> [c]
                        | TGroup k \<Rightarrow> (case map_of cs k of Some s \<Rightarrow> s | None \<Rightarrow> [])) t)"

text \<open>
  \<^verbatim>\<open>re.sub\<close> searches from left to right. \<open>search r p s adv\<close> finds the first offset in
  \<open>s\<close> (which starts at position \<open>p\<close>) where \<open>r\<close> matches; with \<open>adv\<close> set, an empty
  match at offset 0 is not accepted (it would repeat the previous empty match).
\<close>

fun search :: "regex \<Rightarrow> nat \<Rightarrow> string \<Rightarrow> bool \<Rightarrow> (nat \<times> mstate) option" where
  "search r p [] adv =
     (case List.find (\<lambda>st. \<not> adv \<or> pos st \<noteq> p) (run r 0 \<lparr>pos = p, rest = [], caps = []\<rparr>) of
        Some st \<Rightarrow> Some (0, st)
      | None \<Rightarrow> None)"
| "search r p (c # cs) adv =
     (case List.find (\<lambda>st. \<not> adv \<or> pos st \<noteq> p)
             (run r (Suc (length cs)) \<lparr>pos = p, rest = c # cs, caps = []\<rparr>) of
        Some st \<Rightarrow> Some (0, st)
      | None \<Rightarrow> map_option (\<lambda>(off, st). (Suc off, st)) (search r (Suc p) cs False))"

function sub_loop :: "regex \<Rightarrow> titem list \<Rightarrow> nat \<Rightarrow> string \<Rightarrow> bool \<Rightarrow> string" where
  "sub_loop r t p s adv =
     (case search r p s adv of
        None \<Rightarrow> s
      | Some (off, st) \<Rightarrow>
          (let c = pos st - p in
           if c = 0 then (if adv then s else expand t (caps st) @ sub_loop r t p s True)
           else if length s < c then s
           else take off s @ expand t (caps st)
                  @ sub_loop r t (p + c) (drop c s) (c = off)))"
  by pat_completeness auto
termination
  by (relation "measure (\<lambda>(r, t, p, s, adv). 2 * length s + (if adv then 0 else 1))") auto

declare sub_loop.simps [simp del]

text \<open>\<^verbatim>\<open>re.sub(pattern, repl, string)\<close>: every non-overlapping match is replaced.\<close>

definition py_re_sub :: "string \<Rightarrow> string \<Rightarrow> string \<Rightarrow> pyerr + string" where
  "py_re_sub p repl s =
     (case compile p of
        Inl e \<Rightarrow> Inl e
      | Inr (r, g) \<Rightarrow>
          (case parse_template g repl of
             Inl e \<Rightarrow> Inl e
           | Inr t \<Rightarrow> Inr (sub_loop r t 0 s False)))"

subsection \<open>Collaborators, rules and the state of a run\<close>

text \<open>
  The calls into Python's \<^verbatim>\<open>re\<close> module and into the module \<^verbatim>\<open>tmdb\<close> are parameters
  of the model, as is the constant \<^verbatim>\<open>ifttt.IFTTT_URL_BASE\<close>. Each call returns its value
  or the exception it raises.
\<close>

record collab =
  re_match :: "string \<Rightarrow> string \<Rightarrow> pyerr + bool"
  re_sub :: "string \<Rightarrow> string \<Rightarrow> string \<Rightarrow> pyerr + string"
  is_movie :: "string \<Rightarrow> string option \<Rightarrow> pyerr + bool"
  IFTTT_URL_BASE :: string

text \<open>
  A series rule is a dictionary with the keys \<^verbatim>\<open>name\<close>, \<^verbatim>\<open>regex\<close>, \<^verbatim>\<open>replace\<close> and
  \<^verbatim>\<open>destination\<close>; its values are strings. The configuration is the parsed JSON object
  with its four optional keys, \<^verbatim>\<open>series\<close> being an array of rules.
\<close>

type_synonym rule = "string \<rightharpoonup> string"

record config =
  cfg_scanDir :: "string option"
  cfg_seriesDir :: "string option"
  cfg_movieDir :: "string option"
  cfg_series :: "rule list option"

record copy_media =
  "file" :: "string option"
  ifttt_url :: "string option"
  scandir :: "string option"
  seriesdir :: "string option"
  moviedir :: "string option"
  tmdb :: "string option"
  series :: "rule list option"

record args =
  a_file :: "string option"
  a_dest :: "string option"
  a_moviedest :: "string option"
  a_scan :: "string option"
  a_ifttt :: "string option"
  a_tmdb :: "string option"
  delugeArgs :: "string list"

text \<open>The world outside the process: the file system and the webhook posts made so far.\<close>

record world =
  fs :: filesystem
  posts :: "(string \<times> string) list"

text \<open>Truth value of an optional string: \<^verbatim>\<open>None\<close> and \<^verbatim>\<open>''\<close> are false.\<close>

definition truthy :: "string option \<Rightarrow> bool" where
  "truthy v = (case v of None \<Rightarrow> False | Some s \<Rightarrow> s \<noteq> [])"

subsection \<open>\<^verbatim>\<open>CopyMedia.validate_series\<close> and \<^verbatim>\<open>CopyMedia.process_configs\<close>\<close>

fun validate_series :: "rule list \<Rightarrow> pyerr + bool" where
  "validate_series [] = Inr True"
| "validate_series (show # shows) =
     (if show ''name'' = None then Inl (KeyError ''name'')
      else if show ''regex'' = None then Inl (KeyError ''regex'')
      else validate_series shows)"

text \<open>
  The scan directory is taken from the configuration only when no file is given and no
  scan directory came from the command line (lines 126 to 133).
\<close>

definition scan_resolved :: "copy_media \<Rightarrow> config \<Rightarrow> copy_media" where
  "scan_resolved self cfg =
     (if truthy (file self) then self
      else if scandir self = None \<and> cfg_scanDir cfg \<noteq> None
           then self\<lparr>scandir := cfg_scanDir cfg\<rparr> else self)"

text \<open>
  The destination roots are taken from the configuration where the command line gave none
  (lines 140 to 148).
\<close>

definition dirs_resolved :: "copy_media \<Rightarrow> config \<Rightarrow> copy_media" where
  "dirs_resolved self cfg =
     (let s2 = (if seriesdir self = None \<and> cfg_seriesDir cfg \<noteq> None
                then self\<lparr>seriesdir := cfg_seriesDir cfg\<rparr> else self)
      in if moviedir s2 = None \<and> cfg_movieDir cfg \<noteq> None
         then s2\<lparr>moviedir := cfg_movieDir cfg\<rparr> else s2)"

text \<open>The object is returned as the method leaves it; an exception leaves no object.\<close>

definition process_configs :: "copy_media \<Rightarrow> config \<Rightarrow> pyerr + copy_media" where
  "process_configs self cfg =
     (let s1 = scan_resolved self cfg in
      if \<not> truthy (file s1) \<and> \<not> truthy (scandir s1)
      then Inl (ConfigurationError ''Missing directory to scan.'')
      else
        let s3 = dirs_resolved s1 cfg in
        if \<not> truthy (seriesdir s3)
        then Inl (ConfigurationError ''Missing destination series directory'')
        else if \<not> truthy (moviedir s3)
        then Inl (ConfigurationError ''Missing destination movie directory'')
        else case cfg_series cfg of
               Some rules \<Rightarrow>
                 (case validate_series rules of
                    Inl e \<Rightarrow> Inl e
                  | Inr ok \<Rightarrow> Inr (s3\<lparr>series := Some rules\<rparr>))
             | None \<Rightarrow> Inr s3)"

subsection \<open>\<^verbatim>\<open>CopyMedia.match_files\<close>\<close>

text \<open>
  The inner loop over the rules, left at the first match. The arguments of the trace
  message read \<^verbatim>\<open>show['name']\<close> and \<^verbatim>\<open>show['regex']\<close> before the pattern is tried.
\<close>

fun find_show :: "collab \<Rightarrow> string \<Rightarrow> rule list \<Rightarrow> pyerr + rule option" where
  "find_show C f [] = Inr None"
| "find_show C f (show # shows) =
     (case show ''name'' of
        None \<Rightarrow> Inl (KeyError ''name'')
      | Some n \<Rightarrow>
          (case show ''regex'' of
             None \<Rightarrow> Inl (KeyError ''regex'')
           | Some p \<Rightarrow>
               (case re_match C p f of
                  Inl e \<Rightarrow> Inl e
                | Inr matched \<Rightarrow> if matched then Inr (Some show) else find_show C f shows)))"

text \<open>Iterating over \<^verbatim>\<open>None\<close> (no \<^verbatim>\<open>series\<close> key in the configuration) is a type error.\<close>

fun match_files ::
  "collab \<Rightarrow> string list \<Rightarrow> rule list option \<Rightarrow> pyerr + ((string \<times> rule) list \<times> string list)" where
  "match_files C [] shows = Inr ([], [])"
| "match_files C (f # files) shows =
     (case shows of
        None \<Rightarrow> Inl TypeError
      | Some ss \<Rightarrow>
          (case find_show C f ss of
             Inl e \<Rightarrow> Inl e
           | Inr m \<Rightarrow>
               (case match_files C files shows of
                  Inl e \<Rightarrow> Inl e
                | Inr (matches, nonmatches) \<Rightarrow>
                    (case m of
                       Some show \<Rightarrow> Inr ((f, show) # matches, nonmatches)
                     | None \<Rightarrow> Inr (matches, f # nonmatches)))))"

subsection \<open>\<^verbatim>\<open>CopyMedia.move_series\<close> and \<^verbatim>\<open>CopyMedia.move_movies\<close>\<close>

text \<open>The destination file name (lines 224 to 230).\<close>

definition dest_file_name :: "collab \<Rightarrow> rule \<Rightarrow> string \<Rightarrow> pyerr + string" where
  "dest_file_name C config_entry file_name =
     (case config_entry ''replace'' of
        None \<Rightarrow> Inr file_name
      | Some repl \<Rightarrow>
          (case config_entry ''regex'' of
             None \<Rightarrow> Inl (KeyError ''regex'')
           | Some p \<Rightarrow> re_sub C p repl file_name))"

text \<open>The destination directory (lines 232 to 236).\<close>

definition dest_dir :: "string option \<Rightarrow> rule \<Rightarrow> pyerr + string" where
  "dest_dir move_dir config_entry =
     (case config_entry ''destination'' of
        Some d \<Rightarrow> (case move_dir of None \<Rightarrow> Inl TypeError | Some m \<Rightarrow> Inr (join m d))
      | None \<Rightarrow>
          (case config_entry ''name'' of
             None \<Rightarrow> Inl (KeyError ''name'')
           | Some n \<Rightarrow> (case move_dir of None \<Rightarrow> Inl TypeError | Some m \<Rightarrow> Inr (join m n))))"

text \<open>Creating the destination directory if it does not exist (lines 238 to 241).\<close>

definition ensure_dest :: "filesystem \<Rightarrow> string \<Rightarrow> pyerr + filesystem" where
  "ensure_dest fs0 dest = (if \<not> path_exists fs0 dest then makedirs fs0 dest else Inr fs0)"

text \<open>
  One iteration of the loop of \<^verbatim>\<open>move_series\<close>. The source path is first built for the
  log message of line 244, after the directory has been made.
\<close>

definition move_one ::
  "collab \<Rightarrow> string \<times> rule \<Rightarrow> string option \<Rightarrow> string option \<Rightarrow> filesystem
    \<Rightarrow> (pyerr + string) \<times> filesystem" where
  "move_one C m move_dir start_dir fs0 =
     (case dest_file_name C (snd m) (fst m) of
        Inl e \<Rightarrow> (Inl e, fs0)
      | Inr n \<Rightarrow>
          (case dest_dir move_dir (snd m) of
             Inl e \<Rightarrow> (Inl e, fs0)
           | Inr dest \<Rightarrow>
               (case ensure_dest fs0 dest of
                  Inl e \<Rightarrow> (Inl e, fs0)
                | Inr fs1 \<Rightarrow>
                    (case start_dir of
                       None \<Rightarrow> (Inl TypeError, fs1)
                     | Some st \<Rightarrow>
                         (case shutil_move fs1 (join st (fst m)) (join dest n) of
                            Inl e \<Rightarrow> (Inl e, fs1)
                          | Inr fs2 \<Rightarrow> (Inr dest, fs2))))))"

fun move_series ::
  "collab \<Rightarrow> (string \<times> rule) list \<Rightarrow> string option \<Rightarrow> string option \<Rightarrow> filesystem
    \<Rightarrow> (pyerr + string set) \<times> filesystem" where
  "move_series C [] move_dir start_dir fs0 = (Inr {}, fs0)"
| "move_series C (m # matches) move_dir start_dir fs0 =
     (case move_one C m move_dir start_dir fs0 of
        (Inl e, fs1) \<Rightarrow> (Inl e, fs1)
      | (Inr dest, fs1) \<Rightarrow>
          (case move_series C matches move_dir start_dir fs1 of
             (Inl e, fs2) \<Rightarrow> (Inl e, fs2)
           | (Inr destinations, fs2) \<Rightarrow> (Inr (insert dest destinations), fs2)))"

fun move_movies ::
  "string list \<Rightarrow> string option \<Rightarrow> string option \<Rightarrow> filesystem \<Rightarrow> pyerr option \<times> filesystem" where
  "move_movies [] move_dir start_dir fs0 = (None, fs0)"
| "move_movies (file_name # movie_files) move_dir start_dir fs0 =
     (case start_dir of
        None \<Rightarrow> (Some TypeError, fs0)
      | Some st \<Rightarrow>
          (case move_dir of
             None \<Rightarrow> (Some TypeError, fs0)
           | Some mv \<Rightarrow>
               (case shutil_move fs0 (join st file_name) (join mv file_name) of
                  Inl e \<Rightarrow> (Some e, fs0)
                | Inr fs1 \<Rightarrow> move_movies movie_files move_dir start_dir fs1)))"

subsection \<open>Notification\<close>

text \<open>\<^verbatim>\<open>sep.join(names)\<close>.\<close>

fun str_join :: "string \<Rightarrow> string list \<Rightarrow> string" where
  "str_join s [] = []"
| "str_join s [x] = x"
| "str_join s (x # y # ys) = x @ s @ str_join s (y # ys)"

text \<open>The list comprehension \<^verbatim>\<open>[config['name'] for file, config in matches]\<close>.\<close>

fun names_of :: "(string \<times> rule) list \<Rightarrow> pyerr + string list" where
  "names_of [] = Inr []"
| "names_of (m # matches) =
     (case snd m ''name'' of
        None \<Rightarrow> Inl (KeyError ''name'')
      | Some n \<Rightarrow> (case names_of matches of Inl e \<Rightarrow> Inl e | Inr ns \<Rightarrow> Inr (n # ns)))"

definition IFTTT_URL :: string where
  "IFTTT_URL = ''https://maker.ifttt.com/trigger/PLEX_NEW/with/key/dFHLoSLaYm8b1VsTyjan1I''"

text \<open>
  \<^verbatim>\<open>send_notification\<close> of \<^verbatim>\<open>src/copy-files.py\<close>. A post is recorded as the pair of
  the URL and the value of the form field \<^verbatim>\<open>value1\<close>.
\<close>

definition send_notification :: "(string \<times> rule) list \<Rightarrow> world \<Rightarrow> pyerr option \<times> world" where
  "send_notification matches w =
     (if matches \<noteq> [] then
        (case names_of matches of
           Inl e \<Rightarrow> (Some e, w)
         | Inr names \<Rightarrow>
             (None, w\<lparr>posts := posts w @ [(IFTTT_URL, str_join '' and '' names)]\<rparr>))
      else (None, w))"

text \<open>
  Modelled from the spec: \<^verbatim>\<open>ifttt.send_notification(matches, url)\<close>, whose module
  \<^verbatim>\<open>ifttt\<close> is not among the sources. Following section 4.5 it joins the names of the
  matched rules with \<^verbatim>\<open>" and "\<close> and posts the string to the given URL, and makes no call
  for an empty list.
\<close>

definition ifttt_send_notification ::
  "(string \<times> rule) list \<Rightarrow> string \<Rightarrow> world \<Rightarrow> pyerr option \<times> world" where
  "ifttt_send_notification matches url w =
     (if matches \<noteq> [] then
        (case names_of matches of
           Inl e \<Rightarrow> (Some e, w)
         | Inr names \<Rightarrow> (None, w\<lparr>posts := posts w @ [(url, str_join '' and '' names)]\<rparr>))
      else (None, w))"

subsection \<open>\<^verbatim>\<open>CopyMedia.execute\<close> and \<^verbatim>\<open>main\<close>\<close>

text \<open>
  The list of files to process (lines 79 to 84): the last component of the given file, or
  the regular files of the scan directory. \<^verbatim>\<open>os.listdir(None)\<close> lists the working
  directory, and joining \<^verbatim>\<open>None\<close> with one of its entries is a type error.
\<close>

definition scan_files :: "copy_media \<Rightarrow> filesystem \<Rightarrow> pyerr + string list" where
  "scan_files self fs0 =
     (case scandir self of
        None \<Rightarrow>
          (case listdir fs0 ''.'' of
             Inl e \<Rightarrow> Inl e
           | Inr names \<Rightarrow> if names = [] then Inr [] else Inl TypeError)
      | Some d \<Rightarrow>
          (case listdir fs0 d of
             Inl e \<Rightarrow> Inl e
           | Inr names \<Rightarrow> Inr (filter (\<lambda>f. isfile fs0 (join d f)) names)))"

definition input_files :: "copy_media \<Rightarrow> filesystem \<Rightarrow> pyerr + string list" where
  "input_files self fs0 =
     (case file self of
        None \<Rightarrow> scan_files self fs0
      | Some p \<Rightarrow> if p \<noteq> [] then Inr [snd (split p)] else scan_files self fs0)"

text \<open>The list comprehension \<^verbatim>\<open>[file for file in files if tmdb.is_movie(file, self.tmdb)]\<close>.\<close>

fun movie_files_of :: "collab \<Rightarrow> string list \<Rightarrow> string option \<Rightarrow> pyerr + string list" where
  "movie_files_of C [] key = Inr []"
| "movie_files_of C (f # files) key =
     (case is_movie C f key of
        Inl e \<Rightarrow> Inl e
      | Inr b \<Rightarrow>
          (case movie_files_of C files key of
             Inl e \<Rightarrow> Inl e
           | Inr ms \<Rightarrow> Inr (if b then f # ms else ms)))"

definition execute :: "collab \<Rightarrow> copy_media \<Rightarrow> world \<Rightarrow> pyerr option \<times> world" where
  "execute C self w =
     (case input_files self (fs w) of
        Inl e \<Rightarrow> (Some e, w)
      | Inr files \<Rightarrow>
          (case match_files C files (series self) of
             Inl e \<Rightarrow> (Some e, w)
           | Inr (matches, nonmatches) \<Rightarrow>
               if matches \<noteq> [] then
                 (case move_series C matches (seriesdir self) (scandir self) (fs w) of
                    (Inl e, fs1) \<Rightarrow> (Some e, w\<lparr>fs := fs1\<rparr>)
                  | (Inr destinations, fs1) \<Rightarrow>
                      (case ifttt_url self of
                         None \<Rightarrow> (None, w\<lparr>fs := fs1\<rparr>)
                       | Some url \<Rightarrow> ifttt_send_notification matches url (w\<lparr>fs := fs1\<rparr>)))
               else if nonmatches \<noteq> [] \<and> moviedir self \<noteq> None then
                 (case movie_files_of C files (tmdb self) of
                    Inl e \<Rightarrow> (Some e, w)
                  | Inr movie_files \<Rightarrow>
                      (case move_movies movie_files (moviedir self) (scandir self) (fs w) of
                         (r, fs1) \<Rightarrow> (r, w\<lparr>fs := fs1\<rparr>)))
               else (None, w)))"

text \<open>
  \<^verbatim>\<open>main\<close>: the file and the trigger URL are resolved from the command line, the object
  is constructed (which processes the configuration), then \<^verbatim>\<open>execute\<close> runs. The
  configuration is the content of the configuration file.
\<close>

definition resolve_file :: "args \<Rightarrow> string option" where
  "resolve_file a =
     (let d = delugeArgs a;
          torrent_name = (if d \<noteq> [] \<and> 3 \<le> length d then Some (d ! 1) else None);
          torrent_path = (if d \<noteq> [] \<and> 3 \<le> length d then Some (d ! 2) else None);
          f = (if truthy torrent_name \<and> truthy torrent_path
               then (case (torrent_path, torrent_name) of
                       (Some tp, Some tn) \<Rightarrow> Some (join tp tn) | _ \<Rightarrow> None)
               else None)
      in if truthy (a_file a) then a_file a else f)"

definition resolve_trigger_url :: "collab \<Rightarrow> args \<Rightarrow> string option" where
  "resolve_trigger_url C a =
     (let d = delugeArgs a;
          trigger_url = (if d \<noteq> [] \<and> 3 \<le> length d \<and> length d = 4
                         then Some (IFTTT_URL_BASE C @ ''/'' @ d ! 3) else None)
      in case a_ifttt a of
           Some k \<Rightarrow> if k \<noteq> [] \<and> trigger_url = None
                     then Some (IFTTT_URL_BASE C @ ''/'' @ k) else trigger_url
         | None \<Rightarrow> trigger_url)"

definition init :: "collab \<Rightarrow> args \<Rightarrow> config \<Rightarrow> pyerr + copy_media" where
  "init C a cfg =
     process_configs
       \<lparr>file = resolve_file a, ifttt_url = resolve_trigger_url C a, scandir = a_scan a,
        seriesdir = a_dest a, moviedir = a_moviedest a, tmdb = a_tmdb a, series = None\<rparr>
       cfg"

definition main :: "collab \<Rightarrow> args \<Rightarrow> config \<Rightarrow> world \<Rightarrow> pyerr option \<times> world" where
  "main C a cfg w =
     (case init C a cfg of
        Inl e \<Rightarrow> (Some e, w)
      | Inr self \<Rightarrow> execute C self w)"

subsection \<open>Well-formed file systems, the rule of first match, and examples\<close>

text \<open>In a well-formed file system every entry lies directly inside a directory.\<close>

definition well_formed :: "filesystem \<Rightarrow> bool" where
  "well_formed fs0 = list_all (\<lambda>(k, n). k \<noteq> [] \<and> lookup fs0 (butlast k) = Some Dir) fs0"

text \<open>
  A rule matches a file name when \<^verbatim>\<open>re.match\<close> on its pattern returns a match
  object; \<^verbatim>\<open>re.match\<close> anchors the pattern at the start of the file name.
\<close>

definition rule_matches :: "collab \<Rightarrow> string \<Rightarrow> rule \<Rightarrow> bool" where
  "rule_matches C f r = (case r ''regex'' of None \<Rightarrow> False | Some p \<Rightarrow> re_match C p f = Inr True)"

text \<open>
  The collaborators with Python's \<^verbatim>\<open>re\<close> as modelled above, for a given movie
  lookup (the base URL is a stand-in, the module \<^verbatim>\<open>ifttt\<close> not being among the
  sources), and the three rules of the example of first match.
\<close>

definition py_env :: "(string \<Rightarrow> string option \<Rightarrow> pyerr + bool) \<Rightarrow> collab" where
  "py_env lookup_movie =
     \<lparr>re_match = py_re_match, re_sub = py_re_sub, is_movie = lookup_movie,
      IFTTT_URL_BASE = ''https://maker.ifttt.com/trigger''\<rparr>"

definition never_movie :: "string \<Rightarrow> string option \<Rightarrow> pyerr + bool" where
  "never_movie f key = Inr False"

definition rule_A :: rule where
  "rule_A = [''name'' \<mapsto> ''A'', ''regex'' \<mapsto> ''^ShowA.*'']"

definition rule_B :: rule where
  "rule_B = [''name'' \<mapsto> ''B'', ''regex'' \<mapsto> ''^ShowB.*'']"

definition rule_C :: rule where
  "rule_C = [''name'' \<mapsto> ''C'', ''regex'' \<mapsto> ''.*'']"

text \<open>
  Two named rules, the empty world, a command line without arguments, two configurations
  with a malformed rule, and two rules with a rename.
\<close>

definition rule_show_a :: rule where
  "rule_show_a = [''name'' \<mapsto> ''Show A'', ''regex'' \<mapsto> ''^ShowA.*'']"

definition rule_show_b :: rule where
  "rule_show_b = [''name'' \<mapsto> ''Show B'', ''regex'' \<mapsto> ''^ShowB.*'']"

definition world0 :: world where
  "world0 = \<lparr>fs = [], posts = []\<rparr>"

definition no_args :: args where
  "no_args = \<lparr>a_file = None, a_dest = None, a_moviedest = None, a_scan = None, a_ifttt = None,
              a_tmdb = None, delugeArgs = []\<rparr>"

definition cfg_missing_name :: config where
  "cfg_missing_name =
     \<lparr>cfg_scanDir = Some ''/downloads'', cfg_seriesDir = Some ''/media/series'',
      cfg_movieDir = Some ''/media/movies'', cfg_series = Some [[''regex'' \<mapsto> ''^ShowA.*'']]\<rparr>"

definition cfg_missing_regex :: config where
  "cfg_missing_regex =
     \<lparr>cfg_scanDir = Some ''/downloads'', cfg_seriesDir = Some ''/media/series'',
      cfg_movieDir = Some ''/media/movies'',
      cfg_series = Some [rule_show_a, [''name'' \<mapsto> ''Show B'']]\<rparr>"

definition rename_rule_dollar :: rule where
  "rename_rule_dollar =
     [''name'' \<mapsto> ''Show'', ''regex'' \<mapsto> ''(.*)'' @ [backslash] @ ''.mkv'',
      ''replace'' \<mapsto> ''$1.renamed.mkv'']"

definition rename_rule_backref :: rule where
  "rename_rule_backref =
     [''name'' \<mapsto> ''Show'', ''regex'' \<mapsto> ''(.*)'' @ [backslash] @ ''.mkv'',
      ''replace'' \<mapsto> [backslash] @ ''1.renamed.mkv'']"

text \<open>
  A file system with a download directory and the destination roots, the world around it,
  an object that scans the download directory, the same object for a given file, and two
  movie lookups: one that raises, one that knows a single movie.
\<close>

definition fs_downloads :: filesystem where
  "fs_downloads =
     [([''downloads''], Dir),
      ([''downloads'', ''ShowA.S01E02.mkv''], File ''episode 2''),
      ([''downloads'', ''ShowA.S01E03.mkv''], File ''episode 3''),
      ([''downloads'', ''Inception.2010.mkv''], File ''movie''),
      ([''media''], Dir),
      ([''media'', ''series''], Dir),
      ([''media'', ''movies''], Dir)]"

definition failing_lookup :: "string \<Rightarrow> string option \<Rightarrow> pyerr + bool" where
  "failing_lookup f key = Inl LookupFailure"

definition self_scan :: copy_media where
  "self_scan =
     \<lparr>file = None, ifttt_url = None, scandir = Some ''/downloads'',
      seriesdir = Some ''/media/series'', moviedir = Some ''/media/movies'', tmdb = None,
      series = Some [rule_show_b]\<rparr>"

definition world_downloads :: world where
  "world_downloads = \<lparr>fs = fs_downloads, posts = []\<rparr>"

definition self_file :: "string \<Rightarrow> copy_media" where
  "self_file p = self_scan\<lparr>file := Some p\<rparr>"

definition inception_lookup :: "string \<Rightarrow> string option \<Rightarrow> pyerr + bool" where
  "inception_lookup f key = Inr (f = ''Inception.2010.mkv'')"

text \<open>A rule with a rename and a destination of its own.\<close>

definition rule_season :: rule where
  "rule_season =
     [''name'' \<mapsto> ''Show A'',
      ''regex'' \<mapsto> ''ShowA'' @ [backslash] @ ''.(.*)'' @ [backslash] @ ''.mkv'',
      ''replace'' \<mapsto> ''Show A - '' @ [backslash] @ ''1.mkv'',
      ''destination'' \<mapsto> ''Show A/Season 1'']"

text \<open>
  A file system that also holds the directory of a finished torrent, and an object that is
  given a file of that directory while its scan directory is the download directory.
\<close>

definition fs_torrents :: filesystem where
  "fs_torrents =
     fs_downloads @
     [([''torrents''], Dir), ([''torrents'', ''done''], Dir),
      ([''torrents'', ''done'', ''ShowA.S01E02.mkv''], File ''torrent copy'')]"

definition self_torrent :: copy_media where
  "self_torrent =
     \<lparr>file = Some ''/torrents/done/ShowA.S01E02.mkv'', ifttt_url = None,
      scandir = Some ''/downloads'', seriesdir = Some ''/media/series'',
      moviedir = Some ''/media/movies'', tmdb = None, series = Some [rule_show_a]\<rparr>"

section \<open>Properties\<close>

subsection \<open>Evaluation of concrete runs\<close>

lemmas re_eval = py_env_def py_re_match_def py_re_sub_def compile_def backslash_def
  push_item_def close_frame_def quantify_def newline_def is_alnum_def expand_def digit_of_def
  sub_loop.simps

lemmas fs_eval = ensure_dest_def path_exists_def isdir_def isfile_def makedirs_def parts_def
  lookup_def makedirs_parts.simps mkdir_def sep_def join_def shutil_move_def move_to_def
  rename_tree_def under_def

lemmas run_eval = move_one_def dest_file_name_def dest_dir_def fs_eval rule_show_a_def
  rule_show_b_def fs_downloads_def

lemmas exec_eval = execute_def input_files_def scan_files_def listdir_def split_def
  self_scan_def self_file_def world_downloads_def failing_lookup_def never_movie_def
  inception_lookup_def

subsection \<open>Paths\<close>

lemma components_append_sep:
  "components cur (a @ sep # b) = components cur a @ components [] b"
  by (induction a arbitrary: cur) auto

lemma components_no_sep:
  "sep \<notin> set f \<Longrightarrow> components cur f = [rev cur @ f]"
  by (induction f arbitrary: cur) auto

lemma parts_Nil: "parts [] = []"
  by (simp add: parts_def)

lemma parts_bare: "f \<noteq> [] \<Longrightarrow> sep \<notin> set f \<Longrightarrow> f \<noteq> ''.'' \<Longrightarrow> parts f = [f]"
  by (simp add: parts_def components_no_sep)

lemma parts_append_sep: "parts (a @ sep # b) = parts a @ parts b"
  by (simp add: parts_def components_append_sep)

lemma parts_snoc_sep: "parts (a @ [sep]) = parts a"
  using parts_append_sep [of a "[]"] by (simp add: parts_Nil)

lemma parts_join:
  assumes "f \<noteq> []" "sep \<notin> set f" "f \<noteq> ''.''"
  shows "parts (join a f) = parts a @ [f]"
proof -
  have hd: "hd f \<noteq> sep" using assms by (cases f) auto
  show ?thesis
  proof (cases "a = []")
    case True
    then show ?thesis using assms hd by (simp add: join_def parts_bare parts_Nil)
  next
    case False
    show ?thesis
    proof (cases "last a = sep")
      case True
      then have a: "a = butlast a @ [sep]" using False by (metis append_butlast_last_id)
      have "join a f = butlast a @ sep # f" using True False hd assms a
        by (metis append.assoc append_Cons append_Nil join_def)
      then have "parts (join a f) = parts (butlast a) @ parts f" by (simp add: parts_append_sep)
      moreover have "parts a = parts (butlast a)" using a parts_snoc_sep by metis
      ultimately show ?thesis using assms by (simp add: parts_bare)
    next
      case False
      then have "join a f = a @ sep # f" using hd assms \<open>a \<noteq> []\<close> by (simp add: join_def)
      then show ?thesis using assms by (simp add: parts_append_sep parts_bare)
    qed
  qed
qed

lemma join_nonempty: "f \<noteq> [] \<Longrightarrow> join a f \<noteq> []"
  by (simp add: join_def)

subsection \<open>Moving and creating nodes\<close>

lemma map_of_filter_key:
  "map_of (filter (\<lambda>(k, n). P k) xs) x = (if P x then map_of xs x else None)"
  by (induction xs) auto

lemma map_of_map_key:
  "\<forall>k \<in> fst ` set xs. (g k = y) = (k = x) \<Longrightarrow>
   map_of (map (\<lambda>(k, n). (g k, n)) xs) y = map_of xs x"
proof (induction xs)
  case Nil
  then show ?case by simp
next
  case (Cons e xs)
  obtain a b where e: "e = (a, b)" by (cases e)
  from Cons.prems e have here: "(g a = y) = (a = x)" by simp
  from Cons.prems have "\<forall>k \<in> fst ` set xs. (g k = y) = (k = x)" by simp
  then have "map_of (map (\<lambda>(k, n). (g k, n)) xs) y = map_of xs x" by (rule Cons.IH)
  then show ?case using e here by auto
qed

lemma under_refl: "under k k"
  by (simp add: under_def)

lemma lookup_rename_tree_dst:
  assumes "ks \<noteq> []" "kd \<noteq> []"
  shows "lookup (rename_tree fs0 ks kd) kd = lookup fs0 ks"
proof -
  let ?keep = "\<lambda>k. under ks k \<or> \<not> under kd k"
  let ?g = "\<lambda>k. if under ks k then kd @ drop (length ks) k else k"
  let ?ys = "filter (\<lambda>(k, n). ?keep k) fs0"
  have "\<forall>k \<in> fst ` set ?ys. (?g k = kd) = (k = ks)"
  proof
    fix k assume "k \<in> fst ` set ?ys"
    then have keep: "?keep k" by auto
    show "(?g k = kd) = (k = ks)"
    proof (cases "under ks k")
      case True
      then have "k = ks @ drop (length ks) k" by (metis append_take_drop_id under_def)
      then show ?thesis using True by (metis append_Nil2 append_self_conv under_refl same_append_eq)
    next
      case False
      then show ?thesis using keep under_refl by auto
    qed
  qed
  then have "map_of (map (\<lambda>(k, n). (?g k, n)) ?ys) kd = map_of ?ys ks"
    by (rule map_of_map_key)
  also have "\<dots> = map_of fs0 ks" by (simp add: map_of_filter_key under_refl)
  finally show ?thesis using assms by (simp add: lookup_def rename_tree_def)
qed

lemma well_formed_parent:
  assumes "well_formed fs0" "lookup fs0 k \<noteq> None" "k \<noteq> []"
  shows "lookup fs0 (butlast k) = Some Dir"
proof -
  from assms obtain n where "map_of fs0 k = Some n" by (auto simp: lookup_def)
  then have "(k, n) \<in> set fs0" by (rule map_of_SomeD)
  with assms(1) show ?thesis by (auto simp: well_formed_def list_all_iff)
qed

lemma well_formed_ancestor:
  "well_formed fs0 \<Longrightarrow> lookup fs0 (k @ r) \<noteq> None \<Longrightarrow> lookup fs0 k \<noteq> None"
proof (induction r rule: rev_induct)
  case Nil
  then show ?case by simp
next
  case (snoc x r)
  have ne: "k @ r @ [x] \<noteq> []" by simp
  have "lookup fs0 (butlast (k @ r @ [x])) = Some Dir"
    using well_formed_parent [OF snoc.prems(1) snoc.prems(2) ne] .
  then have "lookup fs0 (k @ r) \<noteq> None" by (simp add: butlast_append)
  with snoc show ?case by simp
qed

lemma well_formed_below_dir:
  assumes "well_formed fs0" "lookup fs0 (k @ r) \<noteq> None" "r \<noteq> []"
  shows "lookup fs0 k = Some Dir"
proof -
  have "k @ r = (k @ [hd r]) @ tl r" using assms(3) by simp
  then have "lookup fs0 (k @ [hd r]) \<noteq> None"
    using well_formed_ancestor [OF assms(1), of "k @ [hd r]" "tl r"] assms(2) by simp
  then have "lookup fs0 (butlast (k @ [hd r])) = Some Dir"
    using well_formed_parent [OF assms(1), of "k @ [hd r]"] by simp
  then show ?thesis by simp
qed

lemma in_map_key: "(y, n) \<in> set (map (\<lambda>(k, n). (g k, n)) xs) \<Longrightarrow> \<exists>k. g k = y"
  by (induction xs) auto

lemma lookup_rename_tree_src:
  assumes "ks \<noteq> []" "\<not> under kd ks"
  shows "lookup (rename_tree fs0 ks kd) ks = None"
proof -
  have g: "(if under ks k then kd @ drop (length ks) k else k) \<noteq> ks" for k
  proof (cases "under ks k")
    case True
    have "under kd (kd @ drop (length ks) k)" by (simp add: under_def)
    with assms(2) True show ?thesis by auto
  next
    case False
    then show ?thesis using under_refl by auto
  qed
  have "map_of (rename_tree fs0 ks kd) ks = None"
  proof (rule ccontr)
    assume "map_of (rename_tree fs0 ks kd) ks \<noteq> None"
    then obtain n where "map_of (rename_tree fs0 ks kd) ks = Some n" by auto
    then have "(ks, n) \<in> set (rename_tree fs0 ks kd)" by (rule map_of_SomeD)
    then have "\<exists>k. (if under ks k then kd @ drop (length ks) k else k) = ks"
      unfolding rename_tree_def by (rule in_map_key)
    then obtain k where "(if under ks k then kd @ drop (length ks) k else k) = ks" ..
    with g show False by simp
  qed
  with assms(1) show ?thesis by (simp add: lookup_def)
qed

lemma lookup_File_nonempty: "lookup fs0 k = Some (File c) \<Longrightarrow> k \<noteq> []"
  by (auto simp: lookup_def)

lemma shutil_move_file_lands:
  assumes "lookup fs0 (parts src) = Some (File c)" "src \<noteq> []" "\<not> isdir fs0 dst"
      and "shutil_move fs0 src dst = Inr fs1"
  shows "lookup fs1 (parts dst) = Some (File c)"
proof -
  have ks: "parts src \<noteq> []" using assms(1) by (rule lookup_File_nonempty)
  from assms have mv: "move_to fs0 src (parts src) (dst = []) (parts dst) = Inr fs1"
    by (simp add: shutil_move_def Let_def)
  then have dst: "dst \<noteq> []" using assms(1,2) by (auto simp: move_to_def)
  then have kd: "parts dst \<noteq> []" using assms(3) by (auto simp: isdir_def lookup_def)
  show ?thesis
  proof (cases "parts src = parts dst")
    case True
    then show ?thesis using mv assms(1,2) dst by (auto simp: move_to_def)
  next
    case False
    then have "fs1 = rename_tree fs0 (parts src) (parts dst)"
      using mv assms(1,2) dst by (auto simp: move_to_def split: option.splits node.splits)
    then show ?thesis using lookup_rename_tree_dst [OF ks kd] assms(1) by simp
  qed
qed

lemma shutil_move_file_total:
  assumes "lookup fs0 (parts src) = Some (File c)" "src \<noteq> []" "dst \<noteq> []"
      and "lookup fs0 (parts dst) \<noteq> Some Dir"
      and "lookup fs0 (butlast (parts dst)) = Some Dir"
  shows "\<exists>fs1. shutil_move fs0 src dst = Inr fs1"
  using assms by (auto simp: shutil_move_def Let_def isdir_def move_to_def)

lemma shutil_move_file_source_gone:
  assumes "lookup fs0 (parts src) = Some (File c)" "src \<noteq> []" "\<not> isdir fs0 dst"
      and "shutil_move fs0 src dst = Inr fs1" "\<not> under (parts dst) (parts src)"
  shows "lookup fs1 (parts src) = None"
proof -
  have ks: "parts src \<noteq> []" using assms(1) by (rule lookup_File_nonempty)
  have ne: "parts src \<noteq> parts dst" using assms(5) under_refl by auto
  from assms have mv: "move_to fs0 src (parts src) (dst = []) (parts dst) = Inr fs1"
    by (simp add: shutil_move_def Let_def)
  then have "fs1 = rename_tree fs0 (parts src) (parts dst)"
    using assms(1,2) ne by (auto simp: move_to_def split: option.splits node.splits if_splits)
  then show ?thesis using lookup_rename_tree_src [OF ks assms(5)] by simp
qed

lemma mkdir_exists: "mkdir fs0 k = Inr fs1 \<Longrightarrow> lookup fs1 k = Some Dir"
  by (auto simp: mkdir_def lookup_def map_add_def split: if_splits option.splits node.splits)

lemma makedirs_parts_exists:
  assumes "makedirs_parts fs0 k = Inr fs1"
  shows "lookup fs1 k = Some Dir"
proof -
  have "\<exists>fs'. mkdir fs' k = Inr fs1"
    using assms by (subst (asm) makedirs_parts.simps) (auto split: if_splits sum.splits pyerr.splits)
  then show ?thesis by (auto dest: mkdir_exists)
qed

lemma makedirs_exists: "makedirs fs0 p = Inr fs1 \<Longrightarrow> path_exists fs1 p"
  by (auto simp: makedirs_def path_exists_def dest: makedirs_parts_exists split: if_splits)

lemma ensure_dest_exists: "ensure_dest fs0 p = Inr fs1 \<Longrightarrow> path_exists fs1 p"
  by (auto simp: ensure_dest_def dest: makedirs_exists split: if_splits)

subsection \<open>Classification\<close>

lemma validate_series_ok:
  "validate_series rules = Inr True \<longleftrightarrow> (\<forall>r\<in>set rules. r ''name'' \<noteq> None \<and> r ''regex'' \<noteq> None)"
  by (induction rules) auto

lemma find_show_find:
  assumes "\<forall>r\<in>set rules. r ''name'' \<noteq> None \<and> r ''regex'' \<noteq> None"
      and "\<forall>r\<in>set rules. \<forall>p. r ''regex'' = Some p \<longrightarrow> (\<exists>b. re_match C p f = Inr b)"
  shows "find_show C f rules = Inr (List.find (rule_matches C f) rules)"
  using assms
proof (induction rules)
  case Nil
  then show ?case by simp
next
  case (Cons r rules)
  from Cons.prems obtain n p where n: "r ''name'' = Some n" and p: "r ''regex'' = Some p" by auto
  from Cons.prems p obtain b where b: "re_match C p f = Inr b" by auto
  have ih: "find_show C f rules = Inr (List.find (rule_matches C f) rules)"
    using Cons.prems by (intro Cons.IH) auto
  have rm: "rule_matches C f r = b" using p b by (simp add: rule_matches_def)
  show ?case using n p b ih rm by simp
qed

lemma match_files_spec:
  assumes "\<forall>r\<in>set rules. r ''name'' \<noteq> None \<and> r ''regex'' \<noteq> None"
      and "\<forall>r\<in>set rules. \<forall>f\<in>set files. \<forall>p. r ''regex'' = Some p \<longrightarrow> (\<exists>b. re_match C p f = Inr b)"
  shows "match_files C files (Some rules) =
         Inr (concat (map (\<lambda>f. case List.find (rule_matches C f) rules of
                                  Some r \<Rightarrow> [(f, r)] | None \<Rightarrow> []) files),
              filter (\<lambda>f. List.find (rule_matches C f) rules = None) files)"
  using assms(2)
proof (induction files)
  case Nil
  then show ?case by simp
next
  case (Cons f files)
  have fs: "find_show C f rules = Inr (List.find (rule_matches C f) rules)"
    using assms(1) Cons.prems by (intro find_show_find) auto
  have ih: "match_files C files (Some rules) =
         Inr (concat (map (\<lambda>f. case List.find (rule_matches C f) rules of
                                  Some r \<Rightarrow> [(f, r)] | None \<Rightarrow> []) files),
              filter (\<lambda>f. List.find (rule_matches C f) rules = None) files)"
    using Cons.prems by (intro Cons.IH) auto
  show ?case by (simp add: fs ih split: option.splits)
qed

text \<open>
  Claim C1. For rules that pass \<^verbatim>\<open>validate_series\<close> and patterns on which
  \<^verbatim>\<open>re.match\<close> does not raise, \<^verbatim>\<open>match_files\<close> returns normally; every file name
  is paired with at most one rule, the first rule in configured order whose pattern matches
  it (every earlier rule fails to match), and a file name that no rule matches is put in
  the list of non-matches, all in input order.
\<close>

theorem match_files_first_match:
  assumes "validate_series rules = Inr True"
      and "\<forall>r\<in>set rules. \<forall>f\<in>set files. \<forall>p. r ''regex'' = Some p \<longrightarrow> (\<exists>b. re_match C p f = Inr b)"
  shows "\<exists>matches nonmatches.
           match_files C files (Some rules) = Inr (matches, nonmatches) \<and>
           matches = concat (map (\<lambda>f. case List.find (rule_matches C f) rules of
                                         Some r \<Rightarrow> [(f, r)] | None \<Rightarrow> []) files) \<and>
           nonmatches = filter (\<lambda>f. List.find (rule_matches C f) rules = None) files \<and>
           (\<forall>(f, r)\<in>set matches.
               \<exists>i<length rules. r = rules ! i \<and> rule_matches C f r \<and>
                  (\<forall>j<i. \<not> rule_matches C f (rules ! j)))"
proof -
  have v: "\<forall>r\<in>set rules. r ''name'' \<noteq> None \<and> r ''regex'' \<noteq> None"
    using assms(1) by (simp add: validate_series_ok)
  let ?ms = "concat (map (\<lambda>f. case List.find (rule_matches C f) rules of
                                         Some r \<Rightarrow> [(f, r)] | None \<Rightarrow> []) files)"
  have first: "\<exists>i<length rules. r = rules ! i \<and> rule_matches C f r \<and>
                  (\<forall>j<i. \<not> rule_matches C f (rules ! j))" if "(f, r) \<in> set ?ms" for f r
  proof -
    from that have "List.find (rule_matches C f) rules = Some r"
      by (auto split: option.splits)
    then show ?thesis by (auto simp: find_Some_iff)
  qed
  show ?thesis using match_files_spec [OF v assms(2)] first by auto
qed

text \<open>
  The example of first match: \<^verbatim>\<open>ShowB.S02E03.mkv\<close> goes to rule B although the
  catch-all rule C matches it too, and a file that no rule matches is a non-match.
\<close>

theorem match_files_first_match_witness:
  "match_files (py_env never_movie) [''ShowB.S02E03.mkv'', ''notes.txt''] (Some [rule_A, rule_B])
     = Inr ([(''ShowB.S02E03.mkv'', rule_B)], [''notes.txt''])
   \<and> match_files (py_env never_movie) [''ShowB.S02E03.mkv''] (Some [rule_A, rule_B, rule_C])
     = Inr ([(''ShowB.S02E03.mkv'', rule_B)], [])"
proof -
  have v2: "validate_series [rule_A, rule_B] = Inr True"
    by (simp add: rule_A_def rule_B_def)
  have t2: "\<forall>r\<in>set [rule_A, rule_B]. \<forall>f\<in>set [''ShowB.S02E03.mkv'', ''notes.txt''].
             \<forall>p. r ''regex'' = Some p \<longrightarrow> (\<exists>b. re_match (py_env never_movie) p f = Inr b)"
    by (auto simp add: rule_A_def rule_B_def re_eval)
  have v3: "validate_series [rule_A, rule_B, rule_C] = Inr True"
    by (simp add: rule_A_def rule_B_def rule_C_def)
  have t3: "\<forall>r\<in>set [rule_A, rule_B, rule_C]. \<forall>f\<in>set [''ShowB.S02E03.mkv''].
             \<forall>p. r ''regex'' = Some p \<longrightarrow> (\<exists>b. re_match (py_env never_movie) p f = Inr b)"
    by (auto simp add: rule_A_def rule_B_def rule_C_def re_eval)
  have m: "rule_matches (py_env never_movie) ''ShowB.S02E03.mkv'' rule_B"
          "\<not> rule_matches (py_env never_movie) ''ShowB.S02E03.mkv'' rule_A"
          "\<not> rule_matches (py_env never_movie) ''notes.txt'' rule_A"
          "\<not> rule_matches (py_env never_movie) ''notes.txt'' rule_B"
    by (simp_all add: rule_matches_def rule_A_def rule_B_def re_eval)
  show ?thesis
    using match_files_first_match [OF v2 t2] match_files_first_match [OF v3 t3] m
    by simp
qed

subsection \<open>Configuration loading\<close>

lemma validate_series_first_bad:
  assumes "validate_series pre = Inr True" "r ''name'' = None \<or> r ''regex'' = None"
  shows "validate_series (pre @ r # post)
         = Inl (KeyError (if r ''name'' = None then ''name'' else ''regex''))"
  using assms by (induction pre) (auto split: if_splits)

lemma validate_series_bad:
  assumes "\<exists>r\<in>set rules. r ''name'' = None \<or> r ''regex'' = None"
  shows "validate_series rules = Inl (KeyError ''name'')
         \<or> validate_series rules = Inl (KeyError ''regex'')"
proof -
  from assms obtain pre r post where d: "rules = pre @ r # post"
    and r: "r ''name'' = None \<or> r ''regex'' = None"
    and pre: "\<forall>y\<in>set pre. \<not> (y ''name'' = None \<or> y ''regex'' = None)"
    using split_list_first_prop [of rules "\<lambda>r. r ''name'' = None \<or> r ''regex'' = None"] by blast
  from pre have "validate_series pre = Inr True" by (simp add: validate_series_ok)
  from validate_series_first_bad [OF this r, of post] d show ?thesis by simp
qed

lemma scan_resolved_series [simp]:
  "scan_resolved self (cfg\<lparr>cfg_series := x\<rparr>) = scan_resolved self cfg"
  by (simp add: scan_resolved_def)

lemma dirs_resolved_series [simp]:
  "dirs_resolved self (cfg\<lparr>cfg_series := x\<rparr>) = dirs_resolved self cfg"
  by (auto simp: dirs_resolved_def Let_def)

lemma process_configs_series:
  "cfg_series cfg = Some rules \<Longrightarrow>
   process_configs self cfg =
     (case process_configs self (cfg\<lparr>cfg_series := None\<rparr>) of
        Inl e \<Rightarrow> Inl e
      | Inr s \<Rightarrow> (case validate_series rules of
                    Inl e \<Rightarrow> Inl e
                  | Inr ok \<Rightarrow> Inr (s\<lparr>series := Some rules\<rparr>)))"
  by (simp add: process_configs_def Let_def)

lemma process_configs_no_series_error:
  "process_configs self (cfg\<lparr>cfg_series := None\<rparr>) = Inl e \<Longrightarrow> is_ConfigurationError e"
  by (auto simp: process_configs_def Let_def split: if_splits)

text \<open>
  Claim C3, as the code has it. When some rule of the configured series lacks
  \<^verbatim>\<open>name\<close> or \<^verbatim>\<open>regex\<close>, processing the configuration fails, and \<^verbatim>\<open>main\<close> ends
  with the world untouched. Where the configuration without its series would load, the
  exception is the \<^verbatim>\<open>KeyError\<close> of \<^verbatim>\<open>validate_series\<close>, which names the first missing
  key of the first malformed rule (\<^verbatim>\<open>name\<close> is looked for before \<^verbatim>\<open>regex\<close>); it is a
  \<^verbatim>\<open>ConfigurationError\<close> only where the scan source or a destination root is missing,
  which is checked first.
\<close>

theorem malformed_rule_fails_at_load:
  assumes "cfg_series cfg = Some rules" "\<exists>r\<in>set rules. r ''name'' = None \<or> r ''regex'' = None"
  shows "(\<exists>e. process_configs self cfg = Inl e
              \<and> (is_ConfigurationError e \<or> e = KeyError ''name'' \<or> e = KeyError ''regex''))
         \<and> (\<forall>s. process_configs self (cfg\<lparr>cfg_series := None\<rparr>) = Inr s \<longrightarrow>
                  (\<exists>k. validate_series rules = Inl (KeyError k)
                        \<and> process_configs self cfg = Inl (KeyError k)))
         \<and> (\<forall>e. process_configs self (cfg\<lparr>cfg_series := None\<rparr>) = Inl e \<longrightarrow>
                  is_ConfigurationError e \<and> process_configs self cfg = Inl e)
         \<and> (\<forall>pre r post. rules = pre @ r # post \<and> validate_series pre = Inr True
                  \<and> (r ''name'' = None \<or> r ''regex'' = None) \<longrightarrow>
                  validate_series rules
                    = Inl (KeyError (if r ''name'' = None then ''name'' else ''regex'')))
         \<and> (\<exists>e. main C a cfg w = (Some e, w))"
proof -
  note pc = process_configs_series [OF assms(1)]
  note vb = validate_series_bad [OF assms(2)]
  have 1: "\<exists>e. process_configs self cfg = Inl e
              \<and> (is_ConfigurationError e \<or> e = KeyError ''name'' \<or> e = KeyError ''regex'')"
    for self
  proof (cases "process_configs self (cfg\<lparr>cfg_series := None\<rparr>)")
    case (Inl e)
    then show ?thesis using pc [of self] process_configs_no_series_error [of self cfg e] by simp
  next
    case (Inr s)
    then show ?thesis using pc [of self] vb by auto
  qed
  have 2: "\<forall>s. process_configs self (cfg\<lparr>cfg_series := None\<rparr>) = Inr s \<longrightarrow>
                  (\<exists>k. validate_series rules = Inl (KeyError k)
                        \<and> process_configs self cfg = Inl (KeyError k))"
    using pc [of self] vb by auto
  have 3: "\<forall>e. process_configs self (cfg\<lparr>cfg_series := None\<rparr>) = Inl e \<longrightarrow>
                  is_ConfigurationError e \<and> process_configs self cfg = Inl e"
    using pc [of self] process_configs_no_series_error [of self cfg] by simp
  have 4: "\<forall>pre r post. rules = pre @ r # post \<and> validate_series pre = Inr True
                  \<and> (r ''name'' = None \<or> r ''regex'' = None) \<longrightarrow>
                  validate_series rules
                    = Inl (KeyError (if r ''name'' = None then ''name'' else ''regex''))"
    using validate_series_first_bad by blast
  have 5: "\<exists>e. main C a cfg w = (Some e, w)"
  proof -
    obtain e where "init C a cfg = Inl e" unfolding init_def using 1 by blast
    then show ?thesis by (simp add: main_def)
  qed
  from 1 [of self] 2 3 4 5 show ?thesis by (intro conjI)
qed

text \<open>A second rule without \<^verbatim>\<open>regex\<close>: loading ends with \<^verbatim>\<open>KeyError('regex')\<close>.\<close>

theorem malformed_rule_fails_at_load_witness:
  "main (py_env never_movie) no_args cfg_missing_regex world0 = (Some (KeyError ''regex''), world0)"
proof -
  have s: "cfg_series cfg_missing_regex = Some [rule_show_a, [''name'' \<mapsto> ''Show B'']]"
    by (simp add: cfg_missing_regex_def)
  have b: "\<exists>r\<in>set [rule_show_a, [''name'' \<mapsto> ''Show B'']]. r ''name'' = None \<or> r ''regex'' = None"
    by simp
  have e: "init (py_env never_movie) no_args cfg_missing_regex = Inl (KeyError ''regex'')"
    by (simp add: init_def process_configs_def scan_resolved_def dirs_resolved_def
          cfg_missing_regex_def no_args_def resolve_file_def resolve_trigger_url_def truthy_def
          Let_def rule_show_a_def)
  from malformed_rule_fails_at_load [OF s b, of _ "py_env never_movie" no_args world0]
  obtain e' where "main (py_env never_movie) no_args cfg_missing_regex world0 = (Some e', world0)"
    by blast
  with e show ?thesis by (simp add: main_def)
qed

text \<open>
  Claim C3 as stated fails: with all directories configured and a rule without
  \<^verbatim>\<open>name\<close>, the exception is \<^verbatim>\<open>KeyError('name')\<close>, not a \<^verbatim>\<open>ConfigurationError\<close>.
\<close>

theorem missing_name_raises_KeyError:
  "main (py_env never_movie) no_args cfg_missing_name world0 = (Some (KeyError ''name''), world0)
   \<and> init (py_env never_movie) no_args cfg_missing_name = Inl (KeyError ''name'')
   \<and> \<not> is_ConfigurationError (KeyError ''name'')"
  by (simp add: main_def init_def process_configs_def scan_resolved_def dirs_resolved_def cfg_missing_name_def no_args_def
        resolve_file_def resolve_trigger_url_def truthy_def Let_def)

subsection \<open>Notification\<close>

lemma names_of_names:
  "map (\<lambda>m. snd m ''name'') matches = map Some names \<Longrightarrow> names_of matches = Inr names"
proof (induction matches arbitrary: names)
  case Nil
  then show ?case by simp
next
  case (Cons m matches)
  then obtain n ns where "names = n # ns" by (cases names) auto
  with Cons show ?case by auto
qed

lemma length_str_join:
  "names \<noteq> [] \<Longrightarrow>
   length (str_join s names) = sum_list (map length names) + length s * (length names - 1)"
  by (induction s names rule: str_join.induct) auto

text \<open>
  Claim C6. For matches whose rules carry the names \<open>names\<close>, \<^verbatim>\<open>send_notification\<close>
  posts exactly one message, the names joined by \<^verbatim>\<open>" and "\<close> in match order, and posts
  nothing for the empty list. Two names \<open>a\<close> and \<open>b\<close> give \<open>a\<close>, the separator, \<open>b\<close>,
  also when they are equal; the length of the string is the sum of the lengths of all
  names and separators, so no name is dropped. A run of \<^verbatim>\<open>execute\<close> whose match list is
  empty makes no post.
\<close>

theorem send_notification_names:
  assumes "map (\<lambda>m. snd m ''name'') matches = map Some names"
  shows "send_notification matches w =
           (None, if names = [] then w
                  else w\<lparr>posts := posts w @ [(IFTTT_URL, str_join '' and '' names)]\<rparr>)
         \<and> str_join '' and '' [a, b] = a @ '' and '' @ b
         \<and> (names \<noteq> [] \<longrightarrow>
              length (str_join '' and '' names)
                = sum_list (map length names) + 5 * (length names - 1))
         \<and> (input_files self (fs w) = Inr files
              \<and> match_files C files (series self) = Inr ([], nonmatches)
              \<longrightarrow> posts (snd (execute C self w)) = posts w)"
proof -
  have n: "names_of matches = Inr names" using assms by (rule names_of_names)
  have e: "(matches = []) = (names = [])" using assms by (cases matches) auto
  have 1: "send_notification matches w =
           (None, if names = [] then w
                  else w\<lparr>posts := posts w @ [(IFTTT_URL, str_join '' and '' names)]\<rparr>)"
    using n e by (simp add: send_notification_def)
  have 3: "names \<noteq> [] \<longrightarrow>
              length (str_join '' and '' names)
                = sum_list (map length names) + 5 * (length names - 1)"
    using length_str_join [of names "'' and ''"] by simp
  have 4: "input_files self (fs w) = Inr files
              \<and> match_files C files (series self) = Inr ([], nonmatches)
              \<longrightarrow> posts (snd (execute C self w)) = posts w"
    by (auto simp: execute_def split: sum.splits prod.splits)
  show ?thesis using 1 3 4 by simp
qed

text \<open>
  The names \<^verbatim>\<open>Show A\<close> and \<^verbatim>\<open>Show B\<close> give \<^verbatim>\<open>Show A and Show B\<close>; two files of
  the same series give its name twice.
\<close>

theorem send_notification_names_witness:
  "send_notification [(''ShowA.S01E01.mkv'', rule_show_a), (''ShowB.S02E03.mkv'', rule_show_b)] world0
     = (None, \<lparr>fs = [], posts = [(IFTTT_URL, ''Show A and Show B'')]\<rparr>)
   \<and> send_notification [(''ShowA.S01E01.mkv'', rule_show_a), (''ShowA.S01E02.mkv'', rule_show_a)] world0
     = (None, \<lparr>fs = [], posts = [(IFTTT_URL, ''Show A and Show A'')]\<rparr>)
   \<and> send_notification [] world0 = (None, world0)"
proof -
  have ab: "map (\<lambda>m. snd m ''name'')
              [(''ShowA.S01E01.mkv'', rule_show_a), (''ShowB.S02E03.mkv'', rule_show_b)]
            = map Some [''Show A'', ''Show B'']"
    by (simp add: rule_show_a_def rule_show_b_def)
  have aa: "map (\<lambda>m. snd m ''name'')
              [(''ShowA.S01E01.mkv'', rule_show_a), (''ShowA.S01E02.mkv'', rule_show_a)]
            = map Some [''Show A'', ''Show A'']"
    by (simp add: rule_show_a_def)
  have em: "map (\<lambda>m. snd m ''name'') ([] :: (string \<times> rule) list) = map Some []" by simp
  show ?thesis
    using send_notification_names [OF ab, of world0] send_notification_names [OF aa, of world0]
      send_notification_names [OF em, of world0]
    by (simp add: world0_def)
qed

subsection \<open>The rename substitution\<close>

text \<open>
  Claim C8, as the code has it. With the replacement \<^verbatim>\<open>\1.renamed.mkv\<close>, which is how
  a Python template refers to the first group, the rule with the pattern
  \<^verbatim>\<open>(.*)\.mkv\<close> renames \<^verbatim>\<open>Show.S01E01.mkv\<close> to \<^verbatim>\<open>Show.S01E01.renamed.mkv\<close>.
\<close>

theorem rename_with_backreference:
  "dest_file_name (py_env never_movie) rename_rule_backref ''Show.S01E01.mkv''
     = Inr ''Show.S01E01.renamed.mkv''"
  by (simp add: dest_file_name_def rename_rule_backref_def re_eval)

text \<open>
  Claim C8 as stated fails: \<^verbatim>\<open>$1\<close> is not a group reference of \<^verbatim>\<open>re.sub\<close>, so the
  replacement \<^verbatim>\<open>$1.renamed.mkv\<close> replaces the whole match by itself, literally.
\<close>

theorem rename_with_dollar_is_literal:
  "dest_file_name (py_env never_movie) rename_rule_dollar ''Show.S01E01.mkv''
     = Inr ''$1.renamed.mkv''"
  by (simp add: dest_file_name_def rename_rule_dollar_def re_eval)

subsection \<open>Ensuring the destination directory\<close>

text \<open>
  Claim C9. Once the step that ensures the destination directory has succeeded, running
  it again on the same path succeeds and leaves the file system as it is: the directory
  exists, so nothing is created a second time.
\<close>

theorem ensure_dest_idempotent:
  "ensure_dest fs0 dest = Inr fs1 \<Longrightarrow> ensure_dest fs1 dest = Inr fs1 \<and> path_exists fs1 dest"
  using ensure_dest_exists [of fs0 dest fs1] by (simp add: ensure_dest_def)

text \<open>From the empty file system the first run makes the three directories, the second none.\<close>

theorem ensure_dest_idempotent_witness:
  "ensure_dest [] ''/media/series/Show A''
     = Inr [([''media''], Dir), ([''media'', ''series''], Dir),
            ([''media'', ''series'', ''Show A''], Dir)]
   \<and> ensure_dest [([''media''], Dir), ([''media'', ''series''], Dir),
                  ([''media'', ''series'', ''Show A''], Dir)] ''/media/series/Show A''
     = Inr [([''media''], Dir), ([''media'', ''series''], Dir),
            ([''media'', ''series'', ''Show A''], Dir)]"
proof -
  have h: "ensure_dest [] ''/media/series/Show A''
     = Inr [([''media''], Dir), ([''media'', ''series''], Dir),
            ([''media'', ''series'', ''Show A''], Dir)]"
    by (simp add: fs_eval)
  from ensure_dest_idempotent [OF h] h show ?thesis by simp
qed

subsection \<open>Failures during a batch\<close>

lemma move_series_append:
  "move_series C (xs @ ys) move_dir start_dir fs0 =
     (case move_series C xs move_dir start_dir fs0 of
        (Inl e, fs1) \<Rightarrow> (Inl e, fs1)
      | (Inr ds1, fs1) \<Rightarrow>
          (case move_series C ys move_dir start_dir fs1 of
             (Inl e, fs2) \<Rightarrow> (Inl e, fs2)
           | (Inr ds2, fs2) \<Rightarrow> (Inr (ds1 \<union> ds2), fs2)))"
proof (induction xs arbitrary: fs0)
  case Nil
  show ?case by (simp split: prod.splits sum.splits)
next
  case (Cons m xs)
  show ?case by (simp add: Cons.IH split: prod.splits sum.splits)
qed

text \<open>
  Claim C4, as the code has it. \<^verbatim>\<open>move_series\<close> has no handler around the move: when
  the iteration for one match raises, after the matches before it have been relocated, the
  exception leaves \<^verbatim>\<open>move_series\<close> with the file system as that iteration left it.
  The matches after it are not processed, whatever they are.
\<close>

theorem move_failure_aborts_batch:
  assumes "move_series C pre move_dir start_dir fs0 = (Inr ds, fs1)"
      and "move_one C m move_dir start_dir fs1 = (Inl e, fs2)"
  shows "move_series C (pre @ m # post) move_dir start_dir fs0 = (Inl e, fs2)"
  using assms by (simp add: move_series_append)

text \<open>
  The second episode is moved, the first is missing from the download directory, and the
  third stays where it was.
\<close>

theorem move_failure_aborts_batch_witness:
  "move_series (py_env never_movie)
     [(''ShowA.S01E02.mkv'', rule_show_a), (''ShowA.S01E01.mkv'', rule_show_a),
      (''ShowA.S01E03.mkv'', rule_show_a)]
     (Some ''/media/series'') (Some ''/downloads'') fs_downloads
   = (Inl FileNotFoundError,
      [([''downloads''], Dir),
       ([''media'', ''series'', ''Show A'', ''ShowA.S01E02.mkv''], File ''episode 2''),
       ([''downloads'', ''ShowA.S01E03.mkv''], File ''episode 3''),
       ([''downloads'', ''Inception.2010.mkv''], File ''movie''),
       ([''media''], Dir), ([''media'', ''series''], Dir), ([''media'', ''movies''], Dir),
       ([''media'', ''series'', ''Show A''], Dir)])"
proof -
  let ?fs1 = "[([''downloads''], Dir),
       ([''media'', ''series'', ''Show A'', ''ShowA.S01E02.mkv''], File ''episode 2''),
       ([''downloads'', ''ShowA.S01E03.mkv''], File ''episode 3''),
       ([''downloads'', ''Inception.2010.mkv''], File ''movie''),
       ([''media''], Dir), ([''media'', ''series''], Dir), ([''media'', ''movies''], Dir),
       ([''media'', ''series'', ''Show A''], Dir)]"
  have a: "move_series (py_env never_movie) [(''ShowA.S01E02.mkv'', rule_show_a)]
             (Some ''/media/series'') (Some ''/downloads'') fs_downloads
           = (Inr {''/media/series/Show A''}, ?fs1)"
    by (simp add: run_eval)
  have b: "move_one (py_env never_movie) (''ShowA.S01E01.mkv'', rule_show_a)
             (Some ''/media/series'') (Some ''/downloads'') ?fs1
           = (Inl FileNotFoundError, ?fs1)"
    by (simp add: run_eval)
  from move_failure_aborts_batch [OF a b, of "[(''ShowA.S01E03.mkv'', rule_show_a)]"]
  show ?thesis by simp
qed

text \<open>
  Claim C4 as stated fails: the source of the first match has vanished, and the second
  match, which moves without error when processed alone, is left in the download
  directory; only the destination directory has been made.
\<close>

theorem failed_move_ends_batch:
  "move_series (py_env never_movie)
     [(''ShowA.S01E01.mkv'', rule_show_a), (''ShowA.S01E02.mkv'', rule_show_a)]
     (Some ''/media/series'') (Some ''/downloads'') fs_downloads
     = (Inl FileNotFoundError, fs_downloads @ [([''media'', ''series'', ''Show A''], Dir)])
   \<and> fst (move_series (py_env never_movie) [(''ShowA.S01E02.mkv'', rule_show_a)]
            (Some ''/media/series'') (Some ''/downloads'') fs_downloads)
     = Inr {''/media/series/Show A''}"
  by (simp add: run_eval)

subsection \<open>Failures of the movie lookup\<close>

lemma movie_files_of_error:
  "\<exists>f\<in>set files. \<exists>e. is_movie C f key = Inl e \<Longrightarrow>
   \<exists>e. movie_files_of C files key = Inl e \<and> (\<exists>f\<in>set files. is_movie C f key = Inl e)"
proof (induction files)
  case Nil
  then show ?case by simp
next
  case (Cons f files)
  show ?case
  proof (cases "is_movie C f key")
    case (Inl e)
    then show ?thesis by auto
  next
    case (Inr b)
    with Cons.prems have "\<exists>f\<in>set files. \<exists>e. is_movie C f key = Inl e" by auto
    from Cons.IH [OF this] obtain e where
      "movie_files_of C files key = Inl e" "\<exists>f\<in>set files. is_movie C f key = Inl e" by blast
    with Inr show ?thesis by auto
  qed
qed

text \<open>
  Claim C5, as the code has it. \<^verbatim>\<open>execute\<close> has no handler around
  \<^verbatim>\<open>tmdb.is_movie\<close>: when no file matches a series, a movie root is configured and the
  lookup raises for one of the files, that exception ends \<^verbatim>\<open>execute\<close>. The list of
  movies is built before anything is moved, so the world is unchanged and no file has been
  moved into the movie root.
\<close>

theorem lookup_failure_propagates:
  assumes "input_files self (fs w) = Inr files"
      and "match_files C files (series self) = Inr ([], nonmatches)"
      and "nonmatches \<noteq> []" and "moviedir self \<noteq> None"
      and "\<exists>f\<in>set files. \<exists>e. is_movie C f (tmdb self) = Inl e"
  shows "\<exists>e. execute C self w = (Some e, w)
             \<and> (\<exists>f\<in>set files. is_movie C f (tmdb self) = Inl e)"
proof -
  from movie_files_of_error [OF assms(5)] obtain e where
    e: "movie_files_of C files (tmdb self) = Inl e"
       "\<exists>f\<in>set files. is_movie C f (tmdb self) = Inl e" by blast
  have "execute C self w = (Some e, w)"
    using assms(1-4) e(1) by (simp add: execute_def)
  with e(2) show ?thesis by blast
qed

text \<open>Scanning the download directory with a lookup that always raises.\<close>

theorem lookup_failure_propagates_witness:
  "execute (py_env failing_lookup) self_scan world_downloads = (Some LookupFailure, world_downloads)"
proof -
  have i: "input_files self_scan (fs world_downloads)
           = Inr [''ShowA.S01E02.mkv'', ''ShowA.S01E03.mkv'', ''Inception.2010.mkv'']"
    by (simp add: exec_eval run_eval)
  have m: "match_files (py_env failing_lookup)
             [''ShowA.S01E02.mkv'', ''ShowA.S01E03.mkv'', ''Inception.2010.mkv'']
             (series self_scan)
           = Inr ([], [''ShowA.S01E02.mkv'', ''ShowA.S01E03.mkv'', ''Inception.2010.mkv''])"
    by (simp add: exec_eval run_eval re_eval)
  have n: "[''ShowA.S01E02.mkv'', ''ShowA.S01E03.mkv'', ''Inception.2010.mkv''] \<noteq> []" by simp
  have d: "moviedir self_scan \<noteq> None" by (simp add: self_scan_def)
  have f: "\<exists>f\<in>set [''ShowA.S01E02.mkv'', ''ShowA.S01E03.mkv'', ''Inception.2010.mkv''].
             \<exists>e. is_movie (py_env failing_lookup) f (tmdb self_scan) = Inl e"
    by (auto simp: py_env_def failing_lookup_def)
  from lookup_failure_propagates [OF i m n d f] obtain e where
    e: "execute (py_env failing_lookup) self_scan world_downloads = (Some e, world_downloads)"
       "\<exists>f\<in>set [''ShowA.S01E02.mkv'', ''ShowA.S01E03.mkv'', ''Inception.2010.mkv''].
          is_movie (py_env failing_lookup) f (tmdb self_scan) = Inl e"
    by blast
  from e(2) have "e = LookupFailure" by (auto simp: py_env_def failing_lookup_def)
  with e(1) show ?thesis by simp
qed

text \<open>
  Claim C5 as stated fails: for a given file, the failing lookup ends the run with its
  exception, where the verdict "not a movie" ends it normally.
\<close>

theorem lookup_exception_ends_run:
  "execute (py_env failing_lookup) (self_file ''/downloads/Inception.2010.mkv'') world_downloads
     = (Some LookupFailure, world_downloads)
   \<and> execute (py_env never_movie) (self_file ''/downloads/Inception.2010.mkv'') world_downloads
     = (None, world_downloads)"
  by (simp add: exec_eval run_eval re_eval)

subsection \<open>Relocating movies\<close>

text \<open>
  Claim C7. Let \<open>f\<close> be a bare file name that is a regular file of the scan directory, in a
  well-formed file system where the movie root is a directory and holds no directory of
  that name. Then the iteration of \<^verbatim>\<open>move_movies\<close> for \<open>f\<close> succeeds and goes on with the
  remaining files; afterwards the file, with its content, sits directly inside the movie
  root under its own name (the last component of its path is \<open>f\<close>, the components before
  are those of the root), and it is gone from the scan directory unless that is the movie
  root itself.
\<close>

theorem movie_moved_flat:
  assumes bare: "f \<noteq> []" "sep \<notin> set f" "f \<noteq> ''.''"
      and wf: "well_formed fs0"
      and src: "lookup fs0 (parts st @ [f]) = Some (File c)"
      and root: "isdir fs0 mv"
      and free: "\<not> isdir fs0 (join mv f)"
  shows "\<exists>fs1. shutil_move fs0 (join st f) (join mv f) = Inr fs1
           \<and> move_movies (f # files) (Some mv) (Some st) fs0
               = move_movies files (Some mv) (Some st) fs1
           \<and> parts (join mv f) = parts mv @ [f]
           \<and> lookup fs1 (parts mv @ [f]) = Some (File c)
           \<and> (parts st \<noteq> parts mv \<longrightarrow> lookup fs1 (parts st @ [f]) = None)"
proof -
  have ks: "parts (join st f) = parts st @ [f]" using bare by (rule parts_join)
  have kd: "parts (join mv f) = parts mv @ [f]" using bare by (rule parts_join)
  have sne: "join st f \<noteq> []" and dne: "join mv f \<noteq> []"
    using bare(1) by (simp_all add: join_nonempty)
  have s: "lookup fs0 (parts (join st f)) = Some (File c)" using src ks by simp
  have nd: "lookup fs0 (parts (join mv f)) \<noteq> Some Dir"
    using free dne by (simp add: isdir_def)
  have par: "lookup fs0 (butlast (parts (join mv f))) = Some Dir"
    using root kd by (simp add: isdir_def)
  from shutil_move_file_total [OF s sne dne nd par]
  obtain fs1 where m: "shutil_move fs0 (join st f) (join mv f) = Inr fs1" by blast
  have lands: "lookup fs1 (parts mv @ [f]) = Some (File c)"
    using shutil_move_file_lands [OF s sne free m] kd by simp
  have gone: "lookup fs1 (parts st @ [f]) = None" if ne: "parts st \<noteq> parts mv"
  proof -
    have "\<not> under (parts (join mv f)) (parts (join st f))"
    proof
      assume u: "under (parts (join mv f)) (parts (join st f))"
      define r where "r = drop (length (parts mv @ [f])) (parts st @ [f])"
      have e: "parts st @ [f] = (parts mv @ [f]) @ r"
        using u ks kd unfolding under_def r_def by (metis append_take_drop_id)
      have "r \<noteq> []" using e ne by auto
      moreover have "lookup fs0 ((parts mv @ [f]) @ r) \<noteq> None" using src e by simp
      ultimately have "lookup fs0 (parts mv @ [f]) = Some Dir"
        using well_formed_below_dir [OF wf] by blast
      with nd kd show False by simp
    qed
    from shutil_move_file_source_gone [OF s sne free m this] ks show ?thesis by simp
  qed
  have step: "move_movies (f # files) (Some mv) (Some st) fs0
               = move_movies files (Some mv) (Some st) fs1"
    using m by simp
  from m step kd lands gone show ?thesis by blast
qed

text \<open>
  The file \<^verbatim>\<open>Inception.2010.mkv\<close>, which the lookup calls a movie and no series rule
  matches, ends up at \<^verbatim>\<open>/media/movies/Inception.2010.mkv\<close>.
\<close>

theorem movie_moved_flat_witness:
  "execute (py_env inception_lookup) (self_file ''/downloads/Inception.2010.mkv'') world_downloads
     = (None,
        \<lparr>fs = [([''downloads''], Dir),
               ([''downloads'', ''ShowA.S01E02.mkv''], File ''episode 2''),
               ([''downloads'', ''ShowA.S01E03.mkv''], File ''episode 3''),
               ([''media'', ''movies'', ''Inception.2010.mkv''], File ''movie''),
               ([''media''], Dir), ([''media'', ''series''], Dir), ([''media'', ''movies''], Dir)],
          posts = []\<rparr>)
   \<and> (\<exists>fs1. move_movies [''Inception.2010.mkv''] (Some ''/media/movies'') (Some ''/downloads'')
               fs_downloads = (None, fs1)
            \<and> lookup fs1 [''media'', ''movies'', ''Inception.2010.mkv''] = Some (File ''movie'')
            \<and> lookup fs1 [''downloads'', ''Inception.2010.mkv''] = None)"
proof -
  have b: "''Inception.2010.mkv'' \<noteq> []" "sep \<notin> set ''Inception.2010.mkv''"
          "''Inception.2010.mkv'' \<noteq> ''.''"
    by (simp_all add: sep_def)
  have wf: "well_formed fs_downloads"
    by (simp add: well_formed_def fs_downloads_def lookup_def)
  have src: "lookup fs_downloads (parts ''/downloads'' @ [''Inception.2010.mkv''])
             = Some (File ''movie'')"
    by (simp add: run_eval)
  have root: "isdir fs_downloads ''/media/movies''" by (simp add: run_eval)
  have free: "\<not> isdir fs_downloads (join ''/media/movies'' ''Inception.2010.mkv'')"
    by (simp add: run_eval)
  have p: "parts ''/downloads'' = [''downloads'']" "parts ''/media/movies'' = [''media'', ''movies'']"
    by (simp_all add: run_eval)
  from movie_moved_flat [OF b wf src root free, of "[]"] p
  have 2: "\<exists>fs1. move_movies [''Inception.2010.mkv''] (Some ''/media/movies'') (Some ''/downloads'')
               fs_downloads = (None, fs1)
            \<and> lookup fs1 [''media'', ''movies'', ''Inception.2010.mkv''] = Some (File ''movie'')
            \<and> lookup fs1 [''downloads'', ''Inception.2010.mkv''] = None"
    by auto
  have 1: "execute (py_env inception_lookup) (self_file ''/downloads/Inception.2010.mkv'') world_downloads
     = (None,
        \<lparr>fs = [([''downloads''], Dir),
               ([''downloads'', ''ShowA.S01E02.mkv''], File ''episode 2''),
               ([''downloads'', ''ShowA.S01E03.mkv''], File ''episode 3''),
               ([''media'', ''movies'', ''Inception.2010.mkv''], File ''movie''),
               ([''media''], Dir), ([''media'', ''series''], Dir), ([''media'', ''movies''], Dir)],
          posts = []\<rparr>)"
    by (simp add: exec_eval run_eval re_eval)
  from 1 2 show ?thesis by simp
qed

subsection \<open>Relocating series\<close>

lemma move_series_Cons_Inr:
  "move_series C (m # ms) move_dir start_dir fs0 = (Inr ds, fs') \<Longrightarrow>
   \<exists>dest fs1 ds'. move_one C m move_dir start_dir fs0 = (Inr dest, fs1)
      \<and> move_series C ms move_dir start_dir fs1 = (Inr ds', fs') \<and> ds = insert dest ds'"
  by (auto split: prod.splits sum.splits)

lemma move_series_append_Inr:
  "move_series C (xs @ ys) move_dir start_dir fs0 = (Inr ds, fs') \<Longrightarrow>
   \<exists>ds1 fs1 ds2. move_series C xs move_dir start_dir fs0 = (Inr ds1, fs1)
      \<and> move_series C ys move_dir start_dir fs1 = (Inr ds2, fs') \<and> ds = ds1 \<union> ds2"
  by (auto simp: move_series_append split: prod.splits sum.splits)

lemma move_one_Inr:
  assumes "move_one C (f, r) (Some mv) (Some st) fs1 = (Inr dest, fs3)"
  shows "\<exists>sub n fs2.
           (case r ''destination'' of Some d \<Rightarrow> sub = d | None \<Rightarrow> r ''name'' = Some sub)
         \<and> (case r ''replace'' of
               None \<Rightarrow> n = f
             | Some repl \<Rightarrow> (\<exists>p. r ''regex'' = Some p \<and> re_sub C p repl f = Inr n))
         \<and> dest = join mv sub
         \<and> ensure_dest fs1 dest = Inr fs2
         \<and> shutil_move fs2 (join st f) (join dest n) = Inr fs3"
proof -
  from assms obtain n where n: "dest_file_name C r f = Inr n"
    by (auto simp: move_one_def split: sum.splits)
  from assms n obtain d where d: "dest_dir (Some mv) r = Inr d"
    by (auto simp: move_one_def split: sum.splits)
  from assms n d obtain fs2 where e: "ensure_dest fs1 d = Inr fs2"
    by (auto simp: move_one_def split: sum.splits)
  from assms n d e have m: "shutil_move fs2 (join st f) (join d n) = Inr fs3" and dd: "dest = d"
    by (auto simp: move_one_def split: sum.splits)
  from n have 1: "case r ''replace'' of
               None \<Rightarrow> n = f
             | Some repl \<Rightarrow> (\<exists>p. r ''regex'' = Some p \<and> re_sub C p repl f = Inr n)"
    by (auto simp: dest_file_name_def split: option.splits)
  from d obtain sub where 2: "case r ''destination'' of Some d \<Rightarrow> sub = d | None \<Rightarrow> r ''name'' = Some sub"
    and 3: "d = join mv sub"
    by (auto simp: dest_dir_def split: option.splits)
  from 1 2 3 e m dd show ?thesis by blast
qed

text \<open>
  Claim C2. When \<^verbatim>\<open>move_series\<close> returns normally, every match \<open>(f, r)\<close> of the batch
  has been processed as follows, from the file system reached by the matches before it.
  The directory is \<^verbatim>\<open>join(move_dir, sub)\<close>, where \<open>sub\<close> is the rule's \<^verbatim>\<open>destination\<close>
  if it has one and its \<^verbatim>\<open>name\<close> otherwise; the file name \<open>n\<close> is \<open>f\<close> itself if the rule
  has no \<^verbatim>\<open>replace\<close>, and otherwise the result of one call of \<^verbatim>\<open>re.sub\<close> with the
  rule's \<^verbatim>\<open>regex\<close> as the search pattern; the directory is ensured, and the one move is
  \<^verbatim>\<open>shutil.move\<close> from \<^verbatim>\<open>join(start_dir, f)\<close> to \<^verbatim>\<open>join(directory, n)\<close>. The
  directory is among the returned destinations, and a regular file moved to a path that is
  not a directory sits at that path afterwards.
\<close>

theorem move_series_destination:
  assumes "move_series C (pre @ (f, r) # post) (Some mv) (Some st) fs0 = (Inr ds, fs')"
  shows "\<exists>sub n dest fs1 fs2 fs3 ds1 ds3.
           move_series C pre (Some mv) (Some st) fs0 = (Inr ds1, fs1)
         \<and> (case r ''destination'' of Some d \<Rightarrow> sub = d | None \<Rightarrow> r ''name'' = Some sub)
         \<and> (case r ''replace'' of
               None \<Rightarrow> n = f
             | Some repl \<Rightarrow> (\<exists>p. r ''regex'' = Some p \<and> re_sub C p repl f = Inr n))
         \<and> dest = join mv sub
         \<and> ensure_dest fs1 dest = Inr fs2
         \<and> shutil_move fs2 (join st f) (join dest n) = Inr fs3
         \<and> move_series C post (Some mv) (Some st) fs3 = (Inr ds3, fs')
         \<and> dest \<in> ds
         \<and> (\<forall>c. lookup fs2 (parts (join st f)) = Some (File c) \<and> \<not> isdir fs2 (join dest n)
                \<longrightarrow> lookup fs3 (parts (join dest n)) = Some (File c))"
proof -
  from move_series_append_Inr [OF assms] obtain ds1 fs1 ds2 where
    p: "move_series C pre (Some mv) (Some st) fs0 = (Inr ds1, fs1)"
    and q: "move_series C ((f, r) # post) (Some mv) (Some st) fs1 = (Inr ds2, fs')"
    and u: "ds = ds1 \<union> ds2" by blast
  from move_series_Cons_Inr [OF q] obtain dest fs3 ds3 where
    o: "move_one C (f, r) (Some mv) (Some st) fs1 = (Inr dest, fs3)"
    and t: "move_series C post (Some mv) (Some st) fs3 = (Inr ds3, fs')"
    and i: "ds2 = insert dest ds3" by blast
  from move_one_Inr [OF o] obtain sub n fs2 where
    1: "case r ''destination'' of Some d \<Rightarrow> sub = d | None \<Rightarrow> r ''name'' = Some sub"
    and 2: "case r ''replace'' of
               None \<Rightarrow> n = f
             | Some repl \<Rightarrow> (\<exists>p. r ''regex'' = Some p \<and> re_sub C p repl f = Inr n)"
    and 3: "dest = join mv sub"
    and 4: "ensure_dest fs1 dest = Inr fs2"
    and 5: "shutil_move fs2 (join st f) (join dest n) = Inr fs3" by blast
  have 6: "dest \<in> ds" using u i by simp
  have 7: "\<forall>c. lookup fs2 (parts (join st f)) = Some (File c) \<and> \<not> isdir fs2 (join dest n)
                \<longrightarrow> lookup fs3 (parts (join dest n)) = Some (File c)"
  proof (intro allI impI)
    fix c assume a: "lookup fs2 (parts (join st f)) = Some (File c) \<and> \<not> isdir fs2 (join dest n)"
    then have "parts (join st f) \<noteq> []" using lookup_File_nonempty by blast
    then have ne: "join st f \<noteq> []" using parts_Nil by auto
    from a shutil_move_file_lands [OF _ ne _ 5] show "lookup fs3 (parts (join dest n)) = Some (File c)"
      by blast
  qed
  from p 1 2 3 4 5 t 6 7 show ?thesis by blast
qed

text \<open>
  A batch of two: a rule without rename or destination, and one with both, which renames
  \<^verbatim>\<open>ShowA.S01E03.mkv\<close> to \<^verbatim>\<open>Show A - S01E03.mkv\<close> inside \<^verbatim>\<open>Show A/Season 1\<close>.
\<close>

theorem move_series_destination_witness:
  "move_series (py_env never_movie)
     [(''ShowA.S01E02.mkv'', rule_show_a), (''ShowA.S01E03.mkv'', rule_season)]
     (Some ''/media/series'') (Some ''/downloads'') fs_downloads
   = (Inr {''/media/series/Show A'', ''/media/series/Show A/Season 1''},
      [([''downloads''], Dir),
       ([''media'', ''series'', ''Show A'', ''ShowA.S01E02.mkv''], File ''episode 2''),
       ([''media'', ''series'', ''Show A'', ''Season 1'', ''Show A - S01E03.mkv''],
        File ''episode 3''),
       ([''downloads'', ''Inception.2010.mkv''], File ''movie''),
       ([''media''], Dir), ([''media'', ''series''], Dir), ([''media'', ''movies''], Dir),
       ([''media'', ''series'', ''Show A''], Dir),
       ([''media'', ''series'', ''Show A'', ''Season 1''], Dir)])
   \<and> (\<exists>n. re_sub (py_env never_movie)
              (''ShowA'' @ [backslash] @ ''.(.*)'' @ [backslash] @ ''.mkv'')
              (''Show A - '' @ [backslash] @ ''1.mkv'') ''ShowA.S01E03.mkv'' = Inr n)"
proof -
  have h: "move_series (py_env never_movie)
     ([(''ShowA.S01E02.mkv'', rule_show_a)] @ (''ShowA.S01E03.mkv'', rule_season) # [])
     (Some ''/media/series'') (Some ''/downloads'') fs_downloads
   = (Inr {''/media/series/Show A'', ''/media/series/Show A/Season 1''},
      [([''downloads''], Dir),
       ([''media'', ''series'', ''Show A'', ''ShowA.S01E02.mkv''], File ''episode 2''),
       ([''media'', ''series'', ''Show A'', ''Season 1'', ''Show A - S01E03.mkv''],
        File ''episode 3''),
       ([''downloads'', ''Inception.2010.mkv''], File ''movie''),
       ([''media''], Dir), ([''media'', ''series''], Dir), ([''media'', ''movies''], Dir),
       ([''media'', ''series'', ''Show A''], Dir),
       ([''media'', ''series'', ''Show A'', ''Season 1''], Dir)])"
    by (simp add: run_eval re_eval rule_season_def insert_commute)
  have r: "rule_season ''replace'' = Some (''Show A - '' @ [backslash] @ ''1.mkv'')"
          "rule_season ''regex'' = Some (''ShowA'' @ [backslash] @ ''.(.*)'' @ [backslash] @ ''.mkv'')"
    by (simp_all add: rule_season_def)
  from move_series_destination [OF h] r
  have "\<exists>n. re_sub (py_env never_movie)
              (''ShowA'' @ [backslash] @ ''.(.*)'' @ [backslash] @ ''.mkv'')
              (''Show A - '' @ [backslash] @ ''1.mkv'') ''ShowA.S01E03.mkv'' = Inr n"
    by auto
  with h show ?thesis by simp
qed

subsection \<open>A run on a given file\<close>

lemma execute_file_basename:
  assumes "file self = Some p" "p \<noteq> []" "q \<noteq> []" "snd (split q) = snd (split p)"
  shows "execute C (self\<lparr>file := Some q\<rparr>) w = execute C self w"
  using assms
  by (simp add: execute_def input_files_def
        cong: sum.case_cong prod.case_cong option.case_cong if_cong)

lemma execute_file_series_source:
  assumes "file self = Some p" "p \<noteq> []"
      and "match_files C [snd (split p)] (series self) = Inr ([(snd (split p), r)], [])"
      and "scandir self = Some sd"
      and "dest_file_name C r (snd (split p)) = Inr n"
      and "dest_dir (seriesdir self) r = Inr dest"
      and "ensure_dest (fs w) dest = Inr fs1"
  shows "fs (snd (execute C self w))
         = (case shutil_move fs1 (join sd (snd (split p))) (join dest n) of
              Inl e \<Rightarrow> fs1 | Inr fs2 \<Rightarrow> fs2)"
  using assms
  by (simp add: execute_def input_files_def move_one_def ifttt_send_notification_def
        split: sum.splits option.splits)

lemma execute_file_movie_source:
  assumes "file self = Some p" "p \<noteq> []"
      and "match_files C [snd (split p)] (series self) = Inr ([], [snd (split p)])"
      and "scandir self = Some sd" and "moviedir self = Some mv"
      and "is_movie C (snd (split p)) (tmdb self) = Inr True"
  shows "fs (snd (execute C self w))
         = (case shutil_move (fs w) (join sd (snd (split p))) (join mv (snd (split p))) of
              Inl e \<Rightarrow> fs w | Inr fs2 \<Rightarrow> fs2)"
  using assms
  by (simp add: execute_def input_files_def split: sum.splits option.splits)

lemma init_file_scandir:
  assumes "truthy (resolve_file a)" "init C a cfg = Inr s"
  shows "file s = resolve_file a \<and> scandir s = a_scan a"
proof -
  let ?s0 = "\<lparr>file = resolve_file a, ifttt_url = resolve_trigger_url C a, scandir = a_scan a,
        seriesdir = a_dest a, moviedir = a_moviedest a, tmdb = a_tmdb a, series = None\<rparr>"
  have s1: "scan_resolved ?s0 cfg = ?s0" using assms(1) by (simp add: scan_resolved_def)
  have d: "file (dirs_resolved x cfg) = file x \<and> scandir (dirs_resolved x cfg) = scandir x" for x
    by (simp add: dirs_resolved_def Let_def)
  from assms(2) have "s = dirs_resolved ?s0 cfg
      \<or> (\<exists>rules. s = (dirs_resolved ?s0 cfg)\<lparr>series := Some rules\<rparr>)"
    unfolding init_def process_configs_def s1 Let_def
    by (auto split: if_splits option.splits sum.splits)
  then show ?thesis using d [of ?s0] by auto
qed

lemma resolve_file_flag: "a_file a = Some p \<Longrightarrow> p \<noteq> [] \<Longrightarrow> resolve_file a = Some p"
  by (simp add: resolve_file_def truthy_def Let_def)

lemma resolve_file_deluge:
  "a_file a = None \<Longrightarrow> delugeArgs a = [tid, tname, tpath] \<Longrightarrow> tname \<noteq> [] \<Longrightarrow> tpath \<noteq> [] \<Longrightarrow>
   resolve_file a = Some (join tpath tname)"
  by (simp add: resolve_file_def truthy_def Let_def)

text \<open>
  Claim C10. When the object holds a non-empty file path, the list of files is the last
  component of that path alone, and \<^verbatim>\<open>execute\<close> gives the same result for every other
  path with the same last component: the directory of the path is never used. Where the
  file matches a series rule, the one move reads from \<^verbatim>\<open>join(scandir, basename)\<close>;
  where it is a movie, likewise. The path comes from \<^verbatim>\<open>--file\<close> (or from the arguments
  of the download client), and with a file given the scan directory of the object is the
  one of the command line.
\<close>

theorem explicit_file_uses_basename:
  assumes "file self = Some p" "p \<noteq> []"
  shows "input_files self (fs w) = Inr [snd (split p)]
       \<and> (\<forall>q. q \<noteq> [] \<and> snd (split q) = snd (split p) \<longrightarrow>
              execute C (self\<lparr>file := Some q\<rparr>) w = execute C self w)
       \<and> (\<forall>r sd n dest fs1.
              match_files C [snd (split p)] (series self) = Inr ([(snd (split p), r)], [])
              \<and> scandir self = Some sd
              \<and> dest_file_name C r (snd (split p)) = Inr n
              \<and> dest_dir (seriesdir self) r = Inr dest
              \<and> ensure_dest (fs w) dest = Inr fs1 \<longrightarrow>
              fs (snd (execute C self w))
                = (case shutil_move fs1 (join sd (snd (split p))) (join dest n) of
                     Inl e \<Rightarrow> fs1 | Inr fs2 \<Rightarrow> fs2))
       \<and> (\<forall>sd mv.
              match_files C [snd (split p)] (series self) = Inr ([], [snd (split p)])
              \<and> scandir self = Some sd \<and> moviedir self = Some mv
              \<and> is_movie C (snd (split p)) (tmdb self) = Inr True \<longrightarrow>
              fs (snd (execute C self w))
                = (case shutil_move (fs w) (join sd (snd (split p))) (join mv (snd (split p))) of
                     Inl e \<Rightarrow> fs w | Inr fs2 \<Rightarrow> fs2))
       \<and> (\<forall>a. a_file a = Some p \<longrightarrow> resolve_file a = Some p)
       \<and> (\<forall>a cfg s. truthy (resolve_file a) \<and> init C a cfg = Inr s \<longrightarrow>
              file s = resolve_file a \<and> scandir s = a_scan a)"
proof -
  have 1: "input_files self (fs w) = Inr [snd (split p)]"
    using assms by (simp add: input_files_def)
  have 2: "\<forall>q. q \<noteq> [] \<and> snd (split q) = snd (split p) \<longrightarrow>
              execute C (self\<lparr>file := Some q\<rparr>) w = execute C self w"
    using execute_file_basename [OF assms] by blast
  have 3: "\<forall>r sd n dest fs1.
              match_files C [snd (split p)] (series self) = Inr ([(snd (split p), r)], [])
              \<and> scandir self = Some sd
              \<and> dest_file_name C r (snd (split p)) = Inr n
              \<and> dest_dir (seriesdir self) r = Inr dest
              \<and> ensure_dest (fs w) dest = Inr fs1 \<longrightarrow>
              fs (snd (execute C self w))
                = (case shutil_move fs1 (join sd (snd (split p))) (join dest n) of
                     Inl e \<Rightarrow> fs1 | Inr fs2 \<Rightarrow> fs2)"
    using execute_file_series_source [OF assms] by blast
  have 4: "\<forall>sd mv.
              match_files C [snd (split p)] (series self) = Inr ([], [snd (split p)])
              \<and> scandir self = Some sd \<and> moviedir self = Some mv
              \<and> is_movie C (snd (split p)) (tmdb self) = Inr True \<longrightarrow>
              fs (snd (execute C self w))
                = (case shutil_move (fs w) (join sd (snd (split p))) (join mv (snd (split p))) of
                     Inl e \<Rightarrow> fs w | Inr fs2 \<Rightarrow> fs2)"
    using execute_file_movie_source [OF assms] by blast
  have 5: "\<forall>a. a_file a = Some p \<longrightarrow> resolve_file a = Some p"
    using resolve_file_flag assms(2) by blast
  have 6: "\<forall>a cfg s. truthy (resolve_file a) \<and> init C a cfg = Inr s \<longrightarrow>
              file s = resolve_file a \<and> scandir s = a_scan a"
    using init_file_scandir by blast
  from 1 2 3 4 5 6 show ?thesis by (intro conjI)
qed

text \<open>
  Given \<^verbatim>\<open>/torrents/done/ShowA.S01E02.mkv\<close> and the scan directory \<^verbatim>\<open>/downloads\<close>,
  the file of that name in \<^verbatim>\<open>/downloads\<close> is moved; the one in \<^verbatim>\<open>/torrents/done\<close>
  stays.
\<close>

theorem explicit_file_uses_basename_witness:
  "input_files self_torrent fs_torrents = Inr [''ShowA.S01E02.mkv'']
   \<and> fst (execute (py_env never_movie) self_torrent \<lparr>fs = fs_torrents, posts = []\<rparr>) = None
   \<and> lookup (fs (snd (execute (py_env never_movie) self_torrent \<lparr>fs = fs_torrents, posts = []\<rparr>)))
        [''media'', ''series'', ''Show A'', ''ShowA.S01E02.mkv''] = Some (File ''episode 2'')
   \<and> lookup (fs (snd (execute (py_env never_movie) self_torrent \<lparr>fs = fs_torrents, posts = []\<rparr>)))
        [''downloads'', ''ShowA.S01E02.mkv''] = None
   \<and> lookup (fs (snd (execute (py_env never_movie) self_torrent \<lparr>fs = fs_torrents, posts = []\<rparr>)))
        [''torrents'', ''done'', ''ShowA.S01E02.mkv''] = Some (File ''torrent copy'')"
proof -
  have f: "file self_torrent = Some ''/torrents/done/ShowA.S01E02.mkv''"
    by (simp add: self_torrent_def)
  have n: "''/torrents/done/ShowA.S01E02.mkv'' \<noteq> []" by simp
  have b: "snd (split ''/torrents/done/ShowA.S01E02.mkv'') = ''ShowA.S01E02.mkv''"
    by (simp add: split_def sep_def)
  have e: "execute (py_env never_movie) self_torrent \<lparr>fs = fs_torrents, posts = []\<rparr>
     = (None,
        \<lparr>fs = [([''downloads''], Dir),
               ([''media'', ''series'', ''Show A'', ''ShowA.S01E02.mkv''], File ''episode 2''),
               ([''downloads'', ''ShowA.S01E03.mkv''], File ''episode 3''),
               ([''downloads'', ''Inception.2010.mkv''], File ''movie''),
               ([''media''], Dir), ([''media'', ''series''], Dir), ([''media'', ''movies''], Dir),
               ([''torrents''], Dir), ([''torrents'', ''done''], Dir),
               ([''torrents'', ''done'', ''ShowA.S01E02.mkv''], File ''torrent copy''),
               ([''media'', ''series'', ''Show A''], Dir)],
          posts = []\<rparr>)"
    by (simp add: exec_eval run_eval re_eval self_torrent_def fs_torrents_def)
  from explicit_file_uses_basename [OF f n, of "\<lparr>fs = fs_torrents, posts = []\<rparr>"] b
  have i: "input_files self_torrent fs_torrents = Inr [''ShowA.S01E02.mkv'']" by simp
  from i e show ?thesis by (simp add: lookup_def)
qed

end
